theory Spec2Isabelle
  imports Complex_Main "HOL-Library.Sublist" "HOL-Library.Multiset"
begin

section \<open>kepfold: phase folding and binning of a light curve\<close>

text \<open>
  A shallow embedding of the numeric core of \<^verbatim>\<open>pyke/kepfold.py\<close>, function
  \<^verbatim>\<open>kepfold\<close>, lines 223 to 514: the validity filter, the phase computation, the
  phase sort, the binning loop, the FOLDED table and the wrap-around series.

  Numbers. A Python or numpy float is modelled as an exact real number or one of the three
  special values \<open>+inf\<close>, \<open>-inf\<close> and \<open>nan\<close>; the sign of zero is not modelled. The
  pipeline is given in exact arithmetic, without rounding or overflow. The phase computation
  is given a second time with the rounding of float64 arithmetic and of the cast to float32,
  because the range of the phase depends on it.
\<close>

subsection \<open>Floats\<close>

datatype flt = Finite real | PosInf | NegInf | NaN

fun isfinite :: "flt \<Rightarrow> bool" where
  "isfinite (Finite _) = True"
| "isfinite _ = False"

text \<open>Comparisons: every comparison with \<open>nan\<close> is false, so \<open>!=\<close> with \<open>nan\<close> is true.\<close>

fun flt_eq :: "flt \<Rightarrow> flt \<Rightarrow> bool" where
  "flt_eq (Finite a) (Finite b) = (a = b)"
| "flt_eq PosInf PosInf = True"
| "flt_eq NegInf NegInf = True"
| "flt_eq _ _ = False"

fun flt_lt :: "flt \<Rightarrow> flt \<Rightarrow> bool" where
  "flt_lt (Finite a) (Finite b) = (a < b)"
| "flt_lt NegInf (Finite _) = True"
| "flt_lt NegInf PosInf = True"
| "flt_lt (Finite _) PosInf = True"
| "flt_lt _ _ = False"

definition flt_le :: "flt \<Rightarrow> flt \<Rightarrow> bool" where
  "flt_le a b = (flt_lt a b \<or> flt_eq a b)"

definition flt_ge :: "flt \<Rightarrow> flt \<Rightarrow> bool" where
  "flt_ge a b = flt_le b a"

definition flt_gt :: "flt \<Rightarrow> flt \<Rightarrow> bool" where
  "flt_gt a b = flt_lt b a"

fun fneg :: "flt \<Rightarrow> flt" where
  "fneg (Finite a) = Finite (- a)"
| "fneg PosInf = NegInf"
| "fneg NegInf = PosInf"
| "fneg NaN = NaN"

fun fadd :: "flt \<Rightarrow> flt \<Rightarrow> flt" where
  "fadd (Finite a) (Finite b) = Finite (a + b)"
| "fadd NaN _ = NaN"
| "fadd _ NaN = NaN"
| "fadd PosInf NegInf = NaN"
| "fadd NegInf PosInf = NaN"
| "fadd PosInf _ = PosInf"
| "fadd NegInf _ = NegInf"
| "fadd _ PosInf = PosInf"
| "fadd _ NegInf = NegInf"

definition fsub :: "flt \<Rightarrow> flt \<Rightarrow> flt" where
  "fsub a b = fadd a (fneg b)"

text \<open>Division as numpy does it: a division by zero gives \<open>inf\<close> or \<open>nan\<close>, never an error.\<close>

fun fdiv :: "flt \<Rightarrow> flt \<Rightarrow> flt" where
  "fdiv (Finite a) (Finite b) =
     (if b = 0 then (if a = 0 then NaN else if 0 < a then PosInf else NegInf)
      else Finite (a / b))"
| "fdiv NaN _ = NaN"
| "fdiv _ NaN = NaN"
| "fdiv (Finite a) _ = Finite 0"
| "fdiv PosInf (Finite b) = (if 0 \<le> b then PosInf else NegInf)"
| "fdiv NegInf (Finite b) = (if 0 \<le> b then NegInf else PosInf)"
| "fdiv _ _ = NaN"

fun ffloor :: "flt \<Rightarrow> flt" where
  "ffloor (Finite a) = Finite (of_int \<lfloor>a\<rfloor>)"
| "ffloor x = x"

subsection \<open>Errors\<close>

text \<open>
  The exceptions the modelled lines can raise. \<open>FitError\<close> stands for whatever the sigma-clip
  fitter raises.
\<close>

datatype error = IndexError | NameError | ZeroDivisionError | FitError

subsection \<open>The input table\<close>

text \<open>
  The columns read from the light-curve extension all come from one FITS table (or are zero
  arrays of its length), so they have one length; the table is a list of rows.
\<close>

record lcrow =
  barytime :: flt
  sap :: flt
  saperr :: flt
  pdc :: flt
  pdcerr :: flt
  cbv :: flt
  det :: flt
  deterr :: flt
  quality :: int

subsection \<open>Filter (lines 223 to 267)\<close>

text \<open>
  \<open>datacol\<close> and \<open>errcol\<close> are assigned by four \<open>if\<close>s in a row, each testing whether a
  name occurs in \<open>plottype\<close>; a later one overrides an earlier one, and when none fires the
  two names are unbound.
\<close>

definition select_cols :: "string \<Rightarrow> ((lcrow \<Rightarrow> flt) \<times> (lcrow \<Rightarrow> flt)) option" where
  "select_cols plottype =
     (let s0 = None;
          s1 = (if sublist ''sap'' plottype then Some (sap, saperr) else s0);
          s2 = (if sublist ''pdc'' plottype then Some (pdc, pdcerr) else s1);
          s3 = (if sublist ''cbv'' plottype then Some (cbv, saperr) else s2);
          s4 = (if sublist ''det'' plottype then Some (det, deterr) else s3)
      in s4)"

text \<open>
  The loop of lines 238 to 259. The eight work lists are appended to together, so they are
  kept as one list of rows. \<open>datacol[i]\<close> is evaluated only when \<open>barytime[i]\<close> is finite,
  and raises NameError when \<open>datacol\<close> is unbound.
\<close>

fun filter_loop ::
  "((lcrow \<Rightarrow> flt) \<times> (lcrow \<Rightarrow> flt)) option \<Rightarrow> bool \<Rightarrow> lcrow list \<Rightarrow> lcrow list
     \<Rightarrow> error + lcrow list" where
  "filter_loop sel rejqual [] work = Inr work"
| "filter_loop sel rejqual (r # rs) work =
     (if isfinite (barytime r) then
        (case sel of
           None \<Rightarrow> Inl NameError
         | Some (datacol, errcol) \<Rightarrow>
             if isfinite (datacol r) \<and> \<not> flt_eq (datacol r) (Finite 0) \<and>
                isfinite (errcol r) \<and> flt_gt (errcol r) (Finite 0)
             then (if rejqual \<and> quality r = 0 then filter_loop sel rejqual rs (work @ [r])
                   else if \<not> rejqual then filter_loop sel rejqual rs (work @ [r])
                   else filter_loop sel rejqual rs work)
             else filter_loop sel rejqual rs work)
      else filter_loop sel rejqual rs work)"

text \<open>Lines 260 to 267: the seven flux arrays are divided by \<open>cadenom\<close>, the times are not.\<close>

definition scale :: "real \<Rightarrow> lcrow \<Rightarrow> lcrow" where
  "scale cadenom r =
     r\<lparr>sap := fdiv (sap r) (Finite cadenom),
       saperr := fdiv (saperr r) (Finite cadenom),
       pdc := fdiv (pdc r) (Finite cadenom),
       pdcerr := fdiv (pdcerr r) (Finite cadenom),
       cbv := fdiv (cbv r) (Finite cadenom),
       det := fdiv (det r) (Finite cadenom),
       deterr := fdiv (deterr r) (Finite cadenom)\<rparr>"

subsection \<open>Phase (lines 269 to 276)\<close>

definition adjust_bjd0 :: "real \<Rightarrow> real \<Rightarrow> real" where
  "adjust_bjd0 bjdref bjd0 = (if bjd0 < bjdref then bjd0 + bjdref else bjd0)"

definition calc_phase :: "real \<Rightarrow> real \<Rightarrow> real \<Rightarrow> flt \<Rightarrow> flt" where
  "calc_phase bjdref bjd0 period t =
     (let date = fsub (fadd t (Finite bjdref)) (Finite bjd0);
          q = fdiv date (Finite period)
      in fsub q (ffloor q))"

subsection \<open>Phase in IEEE arithmetic\<close>

text \<open>
  Binary floating point with \<open>p\<close> bits of precision and exponents from \<open>emin\<close> to
  \<open>emax\<close>: a real number is rounded to the nearest representable one, ties to the one with
  an even significand, numbers below \<open>2 ^ emin\<close> on the grid of the subnormal numbers, and
  a result of magnitude \<open>2 ^ (emax + 1)\<close> or more becomes an infinity.
\<close>

definition pow2 :: "int \<Rightarrow> real" where
  "pow2 e = (if 0 \<le> e then 2 ^ nat e else 1 / 2 ^ nat (- e))"

text \<open>
  The exponent of a number other than zero, found by halving or doubling its magnitude until
  it lies in [1, 2).
\<close>

function fexp_up :: "real \<Rightarrow> int \<Rightarrow> int" where
  "fexp_up x e = (if 2 \<le> x then fexp_up (x / 2) (e + 1) else e)"
  by pat_completeness auto
termination
proof (relation "measure (\<lambda>(x, e). nat \<lceil>x\<rceil>)")
  show "wf (measure (\<lambda>(x, e). nat \<lceil>x\<rceil>))" by simp
next
  fix x :: real and e :: int
  assume "2 \<le> x"
  then have "x / 2 \<le> x - 1" by simp
  then have "\<lceil>x / 2\<rceil> \<le> \<lceil>x - 1\<rceil>" by (rule ceiling_mono)
  also have "\<dots> = \<lceil>x\<rceil> - 1" by simp
  finally have "\<lceil>x / 2\<rceil> < \<lceil>x\<rceil>" by simp
  moreover from \<open>2 \<le> x\<close> have "0 < \<lceil>x\<rceil>" by (simp add: less_ceiling_iff)
  ultimately show "((x / 2, e + 1), (x, e)) \<in> measure (\<lambda>(x, e). nat \<lceil>x\<rceil>)" by simp
qed

function fexp_down :: "real \<Rightarrow> int \<Rightarrow> int" where
  "fexp_down x e = (if 0 < x \<and> x < 1 then fexp_down (2 * x) (e - 1) else e)"
  by pat_completeness auto
termination
proof (relation "measure (\<lambda>(x, e). nat \<lceil>1 / x\<rceil>)")
  show "wf (measure (\<lambda>(x, e). nat \<lceil>1 / x\<rceil>))" by simp
next
  fix x :: real and e :: int
  assume a: "0 < x \<and> x < 1"
  then have y: "1 < 1 / x" by simp
  have "\<lceil>1 / (2 * x)\<rceil> < \<lceil>1 / x\<rceil>"
  proof (cases "1 / x \<le> 2")
    case True
    then have "1 / (2 * x) \<le> 1" using a by (simp add: field_simps)
    then have c1: "\<lceil>1 / (2 * x)\<rceil> \<le> 1" by (simp add: ceiling_le_iff)
    from y have c2: "1 < \<lceil>1 / x\<rceil>" by (simp add: less_ceiling_iff)
    from c1 c2 show ?thesis by (rule le_less_trans)
  next
    case False
    then have "1 / (2 * x) \<le> 1 / x - 1" using a by (simp add: field_simps)
    then have "\<lceil>1 / (2 * x)\<rceil> \<le> \<lceil>1 / x - 1\<rceil>" by (rule ceiling_mono)
    then show ?thesis by simp
  qed
  moreover from a have "0 < \<lceil>1 / x\<rceil>" by (simp add: less_ceiling_iff)
  ultimately show "((2 * x, e - 1), (x, e)) \<in> measure (\<lambda>(x, e). nat \<lceil>1 / x\<rceil>)" by simp
qed

declare fexp_up.simps [simp del] fexp_down.simps [simp del]

definition fexp :: "real \<Rightarrow> int" where
  "fexp x = (if 1 \<le> \<bar>x\<bar> then fexp_up \<bar>x\<bar> 0 else fexp_down \<bar>x\<bar> 0)"

text \<open>Rounding to the nearest integer, ties to even.\<close>

definition rne :: "real \<Rightarrow> int" where
  "rne y =
     (let f = \<lfloor>y\<rfloor>; d = y - of_int f
      in if d < 1 / 2 then f else if 1 / 2 < d then f + 1 else if even f then f else f + 1)"

definition round_bin :: "nat \<Rightarrow> int \<Rightarrow> real \<Rightarrow> real" where
  "round_bin p emin x =
     (if x = 0 then 0
      else let e = max (fexp x) emin; u = pow2 (e - int p + 1)
           in of_int (rne (x / u)) * u)"

definition to_float :: "nat \<Rightarrow> int \<Rightarrow> int \<Rightarrow> real \<Rightarrow> flt" where
  "to_float p emin emax x =
     (let y = round_bin p emin x
      in if pow2 (emax + 1) \<le> \<bar>y\<bar> then (if 0 < y then PosInf else NegInf) else Finite y)"

text \<open>float64 and float32.\<close>

definition rnd64 :: "real \<Rightarrow> flt" where
  "rnd64 = to_float 53 (- 1022) 1023"

definition cast32 :: "real \<Rightarrow> flt" where
  "cast32 = to_float 24 (- 126) 127"

text \<open>The result of an operation is rounded when it is a number.\<close>

definition lift_rnd :: "(real \<Rightarrow> flt) \<Rightarrow> flt \<Rightarrow> flt" where
  "lift_rnd r v = (case v of Finite x \<Rightarrow> r x | _ \<Rightarrow> v)"

text \<open>
  Lines 272 to 276 with every float64 operation rounded by \<open>r64\<close> and the result cast by
  \<open>r32\<close>: the cast of line 276 for \<open>phase2\<close>, and the format \<open>E\<close> of the PHASE column
  (line 407) for \<open>phase1\<close>. \<open>np.floor\<close> is exact. With no rounding (\<open>r64\<close> and \<open>r32\<close> both
  \<open>Finite\<close>) this is \<open>calc_phase\<close>.
\<close>

definition calc_phase_rnd ::
  "(real \<Rightarrow> flt) \<Rightarrow> (real \<Rightarrow> flt) \<Rightarrow> real \<Rightarrow> flt \<Rightarrow> real \<Rightarrow> flt \<Rightarrow> flt" where
  "calc_phase_rnd r64 r32 ref b0 per t =
     (let date = lift_rnd r64 (fsub (lift_rnd r64 (fadd t (Finite ref))) b0);
          q = lift_rnd r64 (fdiv date (Finite per));
          ph = lift_rnd r64 (fsub q (ffloor q))
      in lift_rnd r32 ph)"

definition calc_phase_ieee :: "real \<Rightarrow> flt \<Rightarrow> real \<Rightarrow> flt \<Rightarrow> flt" where
  "calc_phase_ieee = calc_phase_rnd rnd64 cast32"

text \<open>Lines 270 and 271 in float64.\<close>

definition adjust_bjd0_ieee :: "real \<Rightarrow> real \<Rightarrow> flt" where
  "adjust_bjd0_ieee ref b0 = (if b0 < ref then rnd64 (b0 + ref) else Finite b0)"

subsection \<open>Sort (lines 278 to 307)\<close>

text \<open>
  One element of \<open>ptuple\<close>: a list of nine numbers in the source, indexed 0 to 8 in the order
  of the fields below. Slot 6 is filled with \<open>saperr[i]\<close>.
\<close>

record prow =
  p_phase :: flt
  p_sap :: flt
  p_saperr :: flt
  p_pdc :: flt
  p_pdcerr :: flt
  p_cbv :: flt
  p_cbverr :: flt
  p_det :: flt
  p_deterr :: flt

definition mk_ptuple :: "flt \<Rightarrow> lcrow \<Rightarrow> prow" where
  "mk_ptuple ph r =
     \<lparr>p_phase = ph, p_sap = sap r, p_saperr = saperr r, p_pdc = pdc r, p_pdcerr = pdcerr r,
      p_cbv = cbv r, p_cbverr = saperr r, p_det = det r, p_deterr = deterr r\<rparr>"

text \<open>
  \<open>sorted(ptuple, key=lambda ph: ph[0])\<close> is a stable sort that compares keys with \<open><\<close>
  only. It is modelled by a stable insertion sort with the same comparison. Where \<open><\<close> is a
  total order on the keys every stable sort returns the same list; the keys of one run are
  either all finite or all \<open>nan\<close>, and in the second case no comparison is ever true and
  both sorts return the list unchanged.
\<close>

fun py_insort :: "prow \<Rightarrow> prow list \<Rightarrow> prow list" where
  "py_insort x [] = [x]"
| "py_insort x (y # ys) =
     (if flt_lt (p_phase y) (p_phase x) then y # py_insort x ys else x # y # ys)"

definition py_sorted :: "prow list \<Rightarrow> prow list" where
  "py_sorted xs = foldr py_insort xs []"

subsection \<open>Library functions used by the binning loop\<close>

text \<open>\<open>np.nanmean\<close>: the mean of the entries that are not \<open>nan\<close>; \<open>nan\<close> when none is left.\<close>

definition nanmean :: "flt list \<Rightarrow> flt" where
  "nanmean xs =
     (let ys = filter (\<lambda>x. x \<noteq> NaN) xs
      in if ys = [] then NaN
         else fdiv (foldl fadd (Finite 0) ys) (Finite (real (length ys))))"

fun flt_insort :: "flt \<Rightarrow> flt list \<Rightarrow> flt list" where
  "flt_insort x [] = [x]"
| "flt_insort x (y # ys) = (if flt_lt y x then y # flt_insort x ys else x # y # ys)"

text \<open>
  \<open>np.nanmedian\<close>: the median of the entries that are not \<open>nan\<close> (the mean of the two middle
  ones when their number is even); \<open>nan\<close> when none is left.
\<close>

definition nanmedian :: "flt list \<Rightarrow> flt" where
  "nanmedian xs =
     (let ys = foldr flt_insort (filter (\<lambda>x. x \<noteq> NaN) xs) [];
          n = length ys
      in if n = 0 then NaN
         else if odd n then ys ! (n div 2)
         else fdiv (fadd (ys ! (n div 2 - 1)) (ys ! (n div 2))) (Finite 2))"

text \<open>
  Two functions of the repository that the loop calls lie outside this file and are taken as
  parameters: \<open>kepstat.mean_err\<close>, and the call \<open>kepfit.lsqclip(kepfunc.poly0, [guess], x, y,
  yerr, rej_lo, rej_hi, niter, logfile, False)\<close> of which the loop uses the first coefficient.
  The second parameter returns an error when evaluating the call raises. (The module never
  imports \<open>kepfunc\<close>; where the name is unbound, evaluating the call raises NameError, which
  is the parameter that always returns \<open>Inl NameError\<close>.)
\<close>

record lib =
  mean_err :: "flt list \<Rightarrow> flt"
  lsqclip :: "flt \<Rightarrow> real list \<Rightarrow> flt list \<Rightarrow> flt list \<Rightarrow> real \<Rightarrow> real \<Rightarrow> int \<Rightarrow> error + flt"

subsection \<open>Arguments\<close>

record args =
  period :: real
  bjd0 :: real
  bindata :: bool
  binmethod :: string
  threshold :: real
  niter :: int
  nbins :: int
  rejqual :: bool
  plottype :: string

text \<open>What the I/O layer hands over: the table, the time reference and the cadence factor.\<close>

record env =
  table :: "lcrow list"
  bjdref :: real
  cadenom :: real

subsection \<open>Binning (lines 309 to 403)\<close>

definition clipfit :: "lib \<Rightarrow> args \<Rightarrow> flt list \<Rightarrow> flt list \<Rightarrow> error + flt" where
  "clipfit L A vals errs =
     lsqclip L (nanmean vals) (map real [0..<length vals]) vals errs
       (threshold A) (threshold A) (niter A)"

text \<open>
  Lines 334 to 385: one bin is appended to the nine output arrays. The eight work arrays are
  kept as one list of rows, \<open>work1\<close> being the \<open>p_sap\<close> column of it, \<open>work2\<close> the
  \<open>p_saperr\<close> column and so on; the nine output arrays are kept as one list of rows too.
\<close>

definition flush :: "lib \<Rightarrow> args \<Rightarrow> real \<Rightarrow> real \<Rightarrow> prow list \<Rightarrow> error + prow" where
  "flush L A nb dt work =
     (if binmethod A = ''mean'' then
        Inr \<lparr>p_phase = Finite ((nb + 0.5) * dt),
             p_sap = nanmean (map p_sap work), p_saperr = mean_err L (map p_saperr work),
             p_pdc = nanmean (map p_pdc work), p_pdcerr = mean_err L (map p_pdcerr work),
             p_cbv = nanmean (map p_cbv work), p_cbverr = mean_err L (map p_cbverr work),
             p_det = nanmean (map p_det work), p_deterr = mean_err L (map p_deterr work)\<rparr>
      else if binmethod A = ''median'' then
        Inr \<lparr>p_phase = Finite ((nb + 0.5) * dt),
             p_sap = nanmedian (map p_sap work), p_saperr = mean_err L (map p_saperr work),
             p_pdc = nanmedian (map p_pdc work), p_pdcerr = mean_err L (map p_pdcerr work),
             p_cbv = nanmedian (map p_cbv work), p_cbverr = mean_err L (map p_cbverr work),
             p_det = nanmedian (map p_det work), p_deterr = mean_err L (map p_deterr work)\<rparr>
      else
        (case clipfit L A (map p_sap work) (map p_saperr work) of
           Inl e \<Rightarrow> Inl e
         | Inr c1 \<Rightarrow>
        (case clipfit L A (map p_pdc work) (map p_pdcerr work) of
           Inl e \<Rightarrow> Inl e
         | Inr c2 \<Rightarrow>
        (case clipfit L A (map p_cbv work) (map p_cbverr work) of
           Inl e \<Rightarrow> Inl e
         | Inr c3 \<Rightarrow>
        (case clipfit L A (map p_det work) (map p_deterr work) of
           Inl e \<Rightarrow> Inl e
         | Inr c4 \<Rightarrow>
             Inr \<lparr>p_phase = Finite ((nb + 0.5) * dt),
                  p_sap = c1, p_saperr = mean_err L (map p_saperr work),
                  p_pdc = c2, p_pdcerr = mean_err L (map p_pdcerr work),
                  p_cbv = c3, p_cbverr = mean_err L (map p_cbverr work),
                  p_det = c4, p_deterr = mean_err L (map p_deterr work)\<rparr>)))))"

text \<open>
  The loop of lines 331 to 403 over \<open>rng\<close>, from index \<open>i\<close> on. \<open>s3\<close> holds the sorted rows
  (\<open>sap3\<close>, \<open>saperr3\<close>, ...), \<open>work\<close> the buffer, \<open>out\<close> the bins appended so far. The
  \<open>else\<close> branch reads \<open>sap3[i]\<close>, which raises IndexError at the last index of \<open>rng\<close>.
\<close>

fun bin_loop ::
  "lib \<Rightarrow> args \<Rightarrow> real \<Rightarrow> prow list \<Rightarrow> flt list \<Rightarrow> nat \<Rightarrow> real \<Rightarrow> prow list \<Rightarrow> prow list
     \<Rightarrow> error + prow list" where
  "bin_loop L A dt s3 [] i nb work out = Inr out"
| "bin_loop L A dt s3 (p # rng) i nb work out =
     (if flt_lt p (Finite (nb * dt)) \<or> flt_ge p (Finite ((nb + 1) * dt)) then
        (if length work > 0 then
           (case flush L A nb dt work of
              Inl e \<Rightarrow> Inl e
            | Inr b \<Rightarrow> bin_loop L A dt s3 rng (i + 1) (nb + 1) [] (out @ [b]))
         else bin_loop L A dt s3 rng (i + 1) (nb + 1) [] out)
      else if i < length s3 then bin_loop L A dt s3 rng (i + 1) nb (work @ [s3 ! i]) out
      else Inl IndexError)"

text \<open>
  Lines 310 to 330: the buffer starts with the first sorted sample (IndexError when there is
  none), \<open>dt = 1.0 / nbins\<close> (ZeroDivisionError for \<open>nbins = 0\<close>), \<open>nb = 0.0\<close>, and \<open>rng\<close> is
  the sorted phases followed by the first phase plus one.
\<close>

definition bin_phases :: "lib \<Rightarrow> args \<Rightarrow> prow list \<Rightarrow> error + prow list" where
  "bin_phases L A s3 =
     (case s3 of
        [] \<Rightarrow> Inl IndexError
      | r0 # _ \<Rightarrow>
          if nbins A = 0 then Inl ZeroDivisionError
          else bin_loop L A (1 / real_of_int (nbins A)) s3
                 (map p_phase s3 @ [fadd (p_phase r0) (Finite 1)]) 0 0 [r0] [])"

subsection \<open>The FOLDED table (lines 422 to 439)\<close>

record folded =
  f_PHASE :: "flt list"
  f_SAP_FLUX :: "flt list"
  f_SAP_FLUX_ERR :: "flt list"
  f_PDC_FLUX :: "flt list"
  f_PDC_FLUX_ERR :: "flt list"
  f_CBV_FLUX :: "flt list"
  f_DET_FLUX :: "flt list"
  f_DET_FLUX_ERR :: "flt list"

definition folded_table :: "real \<Rightarrow> prow list \<Rightarrow> folded" where
  "folded_table c b4 =
     \<lparr>f_PHASE = map p_phase b4,
      f_SAP_FLUX = map (\<lambda>b. fdiv (p_sap b) (Finite c)) b4,
      f_SAP_FLUX_ERR = map (\<lambda>b. fdiv (p_saperr b) (Finite c)) b4,
      f_PDC_FLUX = map (\<lambda>b. fdiv (p_pdc b) (Finite c)) b4,
      f_PDC_FLUX_ERR = map (\<lambda>b. fdiv (p_pdcerr b) (Finite c)) b4,
      f_CBV_FLUX = map (\<lambda>b. fdiv (p_cbv b) (Finite c)) b4,
      f_DET_FLUX = map (\<lambda>b. fdiv (p_det b) (Finite c)) b4,
      f_DET_FLUX_ERR = map (\<lambda>b. fdiv (p_deterr b) (Finite c)) b4\<rparr>"

subsection \<open>Wrap-around series (lines 477 to 514)\<close>

text \<open>The channel that is plotted; here \<open>plottype\<close> is compared for equality.\<close>

definition plot_channel :: "string \<Rightarrow> prow \<Rightarrow> flt" where
  "plot_channel pt =
     (let w0 = p_sap;
          w1 = (if pt = ''pdc'' then p_pdc else w0);
          w2 = (if pt = ''cbv'' then p_cbv else w1);
          w3 = (if pt = ''det'' then p_det else w2)
      in w3)"

text \<open>
  A series is the pair of arrays (\<open>ptime\<close>, \<open>pout\<close>), appended to together and kept as a list
  of pairs. The first loop copies the points above phase 0.5, shifted down by one, the second
  one the points at or below 0.5, shifted up by one.
\<close>

fun wrap_hi :: "(flt \<times> flt) list \<Rightarrow> (flt \<times> flt) list \<Rightarrow> (flt \<times> flt) list" where
  "wrap_hi [] acc = acc"
| "wrap_hi ((p, w) # xs) acc =
     (if flt_gt p (Finite 0.5) then wrap_hi xs (acc @ [(fsub p (Finite 1), w)])
      else wrap_hi xs acc)"

fun wrap_lo :: "(flt \<times> flt) list \<Rightarrow> (flt \<times> flt) list \<Rightarrow> (flt \<times> flt) list" where
  "wrap_lo [] acc = acc"
| "wrap_lo ((p, w) # xs) acc =
     (if flt_le p (Finite 0.5) then wrap_lo xs (acc @ [(fadd p (Finite 1), w)])
      else wrap_lo xs acc)"

definition wrap_expand :: "(flt \<times> flt) list \<Rightarrow> (flt \<times> flt) list" where
  "wrap_expand xs = wrap_lo xs (wrap_hi xs [] @ xs)"

definition series_of :: "string \<Rightarrow> prow list \<Rightarrow> (flt \<times> flt) list" where
  "series_of pt rows = map (\<lambda>r. (p_phase r, plot_channel pt r)) rows"

subsection \<open>The whole computation\<close>

text \<open>
  \<open>o_PHASE\<close> is the PHASE column added to the light-curve extension (from the unfiltered
  times), \<open>o_FOLDED\<close> the FOLDED extension when binning is on, \<open>o_sorted\<close> the sorted arrays
  (\<open>phase3\<close>, \<open>sap3\<close>, ...), \<open>o_series1\<close> the series (\<open>ptime1\<close>, \<open>pout1\<close>) and \<open>o_series2\<close>
  the series (\<open>ptime2\<close>, \<open>pout2\<close>) at line 514.
\<close>

record outputs =
  o_PHASE :: "flt list"
  o_FOLDED :: "folded option"
  o_sorted :: "prow list"
  o_series1 :: "(flt \<times> flt) list"
  o_series2 :: "(flt \<times> flt) list"

text \<open>Lines 269 to 287: the phases of the retained samples and the list \<open>ptuple\<close>.\<close>

definition ptuples :: "env \<Rightarrow> args \<Rightarrow> lcrow list \<Rightarrow> prow list" where
  "ptuples E A work =
     map (\<lambda>r. mk_ptuple
                 (calc_phase (bjdref E) (adjust_bjd0 (bjdref E) (bjd0 A)) (period A)
                    (barytime r)) r)
       (map (scale (cadenom E)) work)"

definition sort_stage :: "env \<Rightarrow> args \<Rightarrow> lcrow list \<Rightarrow> prow list" where
  "sort_stage E A work = py_sorted (ptuples E A work)"

definition kepfold_core :: "lib \<Rightarrow> env \<Rightarrow> args \<Rightarrow> error + outputs" where
  "kepfold_core L E A =
     (case filter_loop (select_cols (plottype A)) (rejqual A) (table E) [] of
        Inl e \<Rightarrow> Inl e
      | Inr work \<Rightarrow>
          let phase1 = map (\<lambda>r. calc_phase (bjdref E) (adjust_bjd0 (bjdref E) (bjd0 A))
                                  (period A) (barytime r)) (table E);
              s3 = sort_stage E A work
          in if bindata A then
               (case bin_phases L A s3 of
                  Inl e \<Rightarrow> Inl e
                | Inr b4 \<Rightarrow>
                    Inr \<lparr>o_PHASE = phase1,
                         o_FOLDED = Some (folded_table (cadenom E) b4),
                         o_sorted = s3,
                         o_series1 = wrap_expand (series_of (plottype A) s3),
                         o_series2 = wrap_expand (series_of (plottype A) b4)\<rparr>)
             else
               Inr \<lparr>o_PHASE = phase1, o_FOLDED = None, o_sorted = s3,
                    o_series1 = wrap_expand (series_of (plottype A) s3),
                    o_series2 = []\<rparr>)"

text \<open>The PHASE column as it is stored, in float32.\<close>

definition PHASE_ieee :: "env \<Rightarrow> args \<Rightarrow> flt list" where
  "PHASE_ieee E A =
     map (\<lambda>r. calc_phase_ieee (bjdref E) (adjust_bjd0_ieee (bjdref E) (bjd0 A)) (period A)
                 (barytime r)) (table E)"

subsection \<open>Auxiliary notions for the statements\<close>

text \<open>The retention condition of the validity filter, written out for one row.\<close>

definition retained :: "(lcrow \<Rightarrow> flt) \<Rightarrow> (lcrow \<Rightarrow> flt) \<Rightarrow> bool \<Rightarrow> lcrow \<Rightarrow> bool" where
  "retained datacol errcol rq r =
     (isfinite (barytime r) \<and>
      isfinite (datacol r) \<and> \<not> flt_eq (datacol r) (Finite 0) \<and>
      isfinite (errcol r) \<and> flt_gt (errcol r) (Finite 0) \<and>
      (rq \<longrightarrow> quality r = 0))"

text \<open>
  The buffers that the binning loop flushes, each with the bin index at that moment: the
  control flow of \<open>bin_loop\<close> with the reduction left out.
\<close>

fun buf_loop ::
  "real \<Rightarrow> prow list \<Rightarrow> flt list \<Rightarrow> nat \<Rightarrow> real \<Rightarrow> prow list
     \<Rightarrow> error + (real \<times> prow list) list" where
  "buf_loop dt s3 [] i nb work = Inr []"
| "buf_loop dt s3 (p # rng) i nb work =
     (if flt_lt p (Finite (nb * dt)) \<or> flt_ge p (Finite ((nb + 1) * dt)) then
        (case buf_loop dt s3 rng (i + 1) (nb + 1) [] of
           Inl e \<Rightarrow> Inl e
         | Inr bs \<Rightarrow> Inr (if length work > 0 then (nb, work) # bs else bs))
      else if i < length s3 then buf_loop dt s3 rng (i + 1) nb (work @ [s3 ! i])
      else Inl IndexError)"

definition bin_buffers :: "int \<Rightarrow> prow list \<Rightarrow> error + (real \<times> prow list) list" where
  "bin_buffers n s3 =
     (case s3 of
        [] \<Rightarrow> Inl IndexError
      | r0 # _ \<Rightarrow>
          if n = 0 then Inl ZeroDivisionError
          else buf_loop (1 / real_of_int n) s3
                 (map p_phase s3 @ [fadd (p_phase r0) (Finite 1)]) 0 0 [r0])"

text \<open>A row with its eight channel values divided by \<open>c\<close>; the phase is left as it is.\<close>

definition pscale :: "real \<Rightarrow> prow \<Rightarrow> prow" where
  "pscale c r =
     r\<lparr>p_sap := fdiv (p_sap r) (Finite c), p_saperr := fdiv (p_saperr r) (Finite c),
       p_pdc := fdiv (p_pdc r) (Finite c), p_pdcerr := fdiv (p_pdcerr r) (Finite c),
       p_cbv := fdiv (p_cbv r) (Finite c), p_cbverr := fdiv (p_cbverr r) (Finite c),
       p_det := fdiv (p_det r) (Finite c), p_deterr := fdiv (p_deterr r) (Finite c)\<rparr>"

subsection \<open>Concrete inputs of the examples\<close>

text \<open>
  A library for the examples: the error of a buffer is taken to be its mean, and the fit call
  raises NameError, as it does in the module, where \<open>kepfunc\<close> is unbound.
\<close>

definition demo_lib :: lib where
  "demo_lib = \<lparr>mean_err = nanmean, lsqclip = (\<lambda>guess x y yerr lo hi n. Inl NameError)\<rparr>"

definition demo_row :: "real \<Rightarrow> real \<Rightarrow> lcrow" where
  "demo_row t v =
     \<lparr>barytime = Finite t, sap = Finite v, saperr = Finite (v / 10), pdc = Finite (2 * v),
      pdcerr = Finite (v / 5), cbv = Finite (3 * v), det = Finite (4 * v),
      deterr = Finite (v / 2), quality = 0\<rparr>"

definition demo_prow :: "real \<Rightarrow> real \<Rightarrow> prow" where
  "demo_prow p v = mk_ptuple (Finite p) (demo_row p v)"

definition demo_env :: env where
  "demo_env = \<lparr>table = [demo_row 0.6 20, demo_row 0.1 10], bjdref = 0, cadenom = 2\<rparr>"

definition demo_args :: args where
  "demo_args =
     \<lparr>period = 1, bjd0 = 0, bindata = True, binmethod = ''mean'', threshold = 1, niter = 5,
      nbins = 2, rejqual = False, plottype = ''sap''\<rparr>"

definition demo_env3 :: env where
  "demo_env3 =
     \<lparr>table = [demo_row 0.6 20, demo_row 0.1 10, demo_row 1.1 30], bjdref = 0, cadenom = 2\<rparr>"

definition demo_sorted :: "prow list" where
  "demo_sorted = [demo_prow 0.1 10, demo_prow 0.2 20, demo_prow 0.3 90, demo_prow 0.6 7,
                  demo_prow 0.7 8, demo_prow 0.8 9]"

text \<open>Times that float64 represents exactly, one of them just below a whole period.\<close>

definition ieee_env :: env where
  "ieee_env =
     \<lparr>table = [demo_row (1000 - 1 / 2 ^ 31) 10, (demo_row 1001 20)\<lparr>barytime := NaN\<rparr>,
               demo_row (4003 / 4) 30],
      bjdref = 2454833, cadenom = 1\<rparr>"

definition ieee_args :: args where
  "ieee_args = demo_args\<lparr>bjd0 := 2455833\<rparr>"

subsection \<open>Basic facts\<close>

lemma wrap_hi_eq:
  "wrap_hi xs acc =
     acc @ map (\<lambda>(p, w). (fsub p (Finite 1), w)) (filter (\<lambda>(p, w). flt_gt p (Finite 0.5)) xs)"
  by (induction xs arbitrary: acc) auto

lemma wrap_lo_eq:
  "wrap_lo xs acc =
     acc @ map (\<lambda>(p, w). (fadd p (Finite 1), w)) (filter (\<lambda>(p, w). flt_le p (Finite 0.5)) xs)"
  by (induction xs arbitrary: acc) auto

lemma calc_phase_finite:
  assumes "per \<noteq> 0"
  shows "calc_phase ref b0 per (Finite t) = Finite (frac ((t + ref - b0) / per))"
  using assms by (simp add: calc_phase_def fsub_def Let_def frac_def)

lemma calc_phase_range:
  assumes "per \<noteq> 0"
  shows "\<exists>x. calc_phase ref b0 per (Finite t) = Finite x \<and> 0 \<le> x \<and> x < 1"
  using assms by (simp add: calc_phase_finite frac_lt_1)

lemma filter_loop_Some:
  "filter_loop (Some (d, e)) rq rows work = Inr (work @ filter (retained d e rq) rows)"
proof (induction rows arbitrary: work)
  case Nil
  show ?case by simp
next
  case (Cons r rs)
  have step: "filter_loop (Some (d, e)) rq (r # rs) work =
      (if retained d e rq r then filter_loop (Some (d, e)) rq rs (work @ [r])
       else filter_loop (Some (d, e)) rq rs work)"
    by (simp add: retained_def)
  show ?case unfolding step by (simp add: Cons.IH)
qed

lemma filter_loop_None:
  "filter_loop None rq rows work = Inr w \<Longrightarrow> w = work"
proof (induction rows arbitrary: work)
  case Nil
  then show ?case by simp
next
  case (Cons r rs)
  then show ?case by (cases "isfinite (barytime r)") simp_all
qed

lemma filter_loop_finite_time:
  assumes "filter_loop sel rq rows [] = Inr w"
  shows "\<forall>r\<in>set w. isfinite (barytime r)"
proof (cases sel)
  case None
  with assms have "w = []" using filter_loop_None by blast
  then show ?thesis by simp
next
  case (Some de)
  obtain d e where "de = (d, e)" by (cases de)
  with Some assms have "w = filter (retained d e rq) rows"
    by (simp add: filter_loop_Some)
  then show ?thesis by (simp add: retained_def)
qed

lemma filter_by_index:
  "filter P xs = map ((!) xs) (filter (\<lambda>i. P (xs ! i)) [0..<length xs])"
proof -
  have "filter P xs = filter P (map ((!) xs) [0..<length xs])"
    by (simp add: map_nth)
  also have "\<dots> = map ((!) xs) (filter (P \<circ> (!) xs) [0..<length xs])"
    by (simp only: filter_map)
  finally show ?thesis by (simp add: comp_def)
qed

lemma mset_py_insort: "mset (py_insort x ys) = add_mset x (mset ys)"
  by (induction ys) simp_all

lemma mset_py_sorted: "mset (py_sorted xs) = mset xs"
  by (induction xs) (simp_all add: py_sorted_def mset_py_insort)

lemma set_py_sorted: "set (py_sorted xs) = set xs"
  using mset_py_sorted [of xs] by (metis set_mset_mset)

lemma ptuples_phase_finite:
  assumes "period A \<noteq> 0" and "\<forall>r\<in>set work. isfinite (barytime r)"
  shows "\<forall>p\<in>set (ptuples E A work). \<exists>x. p_phase p = Finite x \<and> 0 \<le> x \<and> x < 1"
proof
  fix p assume "p \<in> set (ptuples E A work)"
  then obtain r where r: "r \<in> set work"
    and p: "p = mk_ptuple (calc_phase (bjdref E) (adjust_bjd0 (bjdref E) (bjd0 A)) (period A)
                 (barytime (scale (cadenom E) r))) (scale (cadenom E) r)"
    by (auto simp: ptuples_def)
  from r assms(2) obtain t where t: "barytime r = Finite t"
    by (cases "barytime r") auto
  have "barytime (scale (cadenom E) r) = Finite t"
    by (simp add: scale_def t)
  with p have "p_phase p = calc_phase (bjdref E) (adjust_bjd0 (bjdref E) (bjd0 A)) (period A) (Finite t)"
    by (simp add: mk_ptuple_def)
  with calc_phase_range [OF assms(1)] show "\<exists>x. p_phase p = Finite x \<and> 0 \<le> x \<and> x < 1"
    by simp
qed

lemma select_cols_sap: "select_cols ''sap'' = Some (sap, saperr)"
  by (simp add: select_cols_def sublist_code prefix_code)

lemma flt_lt_irrefl: "\<not> flt_lt a a"
  by (cases a) simp_all

lemma flt_lt_imp_le: "flt_lt a b \<Longrightarrow> flt_le a b"
  by (simp add: flt_le_def)

lemma flt_le_total_finite: "isfinite a \<Longrightarrow> isfinite b \<Longrightarrow> \<not> flt_lt b a \<Longrightarrow> flt_le a b"
  by (cases a; cases b) (auto simp: flt_le_def)

lemma flt_le_trans: "flt_le a b \<Longrightarrow> flt_le b c \<Longrightarrow> flt_le a c"
  by (cases a; cases b; cases c) (auto simp: flt_le_def)

lemma set_py_insort: "set (py_insort x ys) = insert x (set ys)"
  using mset_py_insort [of x ys] by (metis set_mset_add_mset_insert set_mset_mset)

lemma sorted_py_insort:
  assumes "isfinite (p_phase x)" and "\<forall>r\<in>set ys. isfinite (p_phase r)"
    and "sorted_wrt (\<lambda>a b. flt_le (p_phase a) (p_phase b)) ys"
  shows "sorted_wrt (\<lambda>a b. flt_le (p_phase a) (p_phase b)) (py_insort x ys)"
  using assms(2,3)
proof (induction ys)
  case Nil
  show ?case by simp
next
  case (Cons y ys)
  show ?case
  proof (cases "flt_lt (p_phase y) (p_phase x)")
    case True
    from Cons have "sorted_wrt (\<lambda>a b. flt_le (p_phase a) (p_phase b)) (py_insort x ys)"
      by simp
    moreover from Cons.prems(2) True
    have "\<forall>z\<in>set (py_insort x ys). flt_le (p_phase y) (p_phase z)"
      by (auto simp: set_py_insort flt_lt_imp_le)
    ultimately show ?thesis using True by simp
  next
    case False
    from Cons.prems(1) assms(1) False have xy: "flt_le (p_phase x) (p_phase y)"
      by (simp add: flt_le_total_finite)
    from Cons.prems(2) have "\<forall>z\<in>set ys. flt_le (p_phase y) (p_phase z)" by simp
    with xy have "\<forall>z\<in>set ys. flt_le (p_phase x) (p_phase z)"
      by (blast intro: flt_le_trans)
    with xy Cons.prems(2) False show ?thesis by simp
  qed
qed

lemma sorted_py_sorted:
  "\<forall>r\<in>set xs. isfinite (p_phase r)
     \<Longrightarrow> sorted_wrt (\<lambda>a b. flt_le (p_phase a) (p_phase b)) (py_sorted xs)"
proof (induction xs)
  case Nil
  show ?case by (simp add: py_sorted_def)
next
  case (Cons x xs)
  then have "sorted_wrt (\<lambda>a b. flt_le (p_phase a) (p_phase b)) (py_sorted xs)" by simp
  moreover from Cons.prems have "\<forall>r\<in>set (py_sorted xs). isfinite (p_phase r)"
    by (simp add: set_py_sorted)
  moreover from Cons.prems have "isfinite (p_phase x)" by simp
  ultimately have "sorted_wrt (\<lambda>a b. flt_le (p_phase a) (p_phase b)) (py_insort x (py_sorted xs))"
    by (simp add: sorted_py_insort)
  then show ?case by (simp add: py_sorted_def)
qed

lemma filter_py_insort:
  "filter (\<lambda>r. p_phase r = k) (py_insort x ys) =
     (if p_phase x = k then x # filter (\<lambda>r. p_phase r = k) ys
      else filter (\<lambda>r. p_phase r = k) ys)"
  by (induction ys) (auto simp: flt_lt_irrefl)

lemma py_sorted_stable:
  "filter (\<lambda>r. p_phase r = k) (py_sorted xs) = filter (\<lambda>r. p_phase r = k) xs"
  by (induction xs) (simp_all add: py_sorted_def filter_py_insort)

lemma flush_errs:
  assumes "flush L A n dt w = Inr b"
  shows "p_saperr b = mean_err L (map p_saperr w)"
    and "p_pdcerr b = mean_err L (map p_pdcerr w)"
    and "p_cbverr b = mean_err L (map p_cbverr w)"
    and "p_deterr b = mean_err L (map p_deterr w)"
    and "p_phase b = Finite ((n + 0.5) * dt)"
  using assms by (auto simp: flush_def split: if_splits sum.splits)

lemma bin_loop_buffers:
  "bin_loop L A dt s3 rng i nb work out = Inr out' \<Longrightarrow>
     \<exists>bs new. buf_loop dt s3 rng i nb work = Inr bs \<and> out' = out @ new \<and>
       list_all2 (\<lambda>b (n, w). flush L A n dt w = Inr b) new bs"
proof (induction rng arbitrary: i nb work out)
  case Nil
  then show ?case by simp
next
  case (Cons p rng)
  show ?case
  proof (cases "flt_lt p (Finite (nb * dt)) \<or> flt_ge p (Finite ((nb + 1) * dt))")
    case outside: True
    show ?thesis
    proof (cases "length work > 0")
      case True
      with outside Cons.prems obtain b where b: "flush L A nb dt work = Inr b"
        and run: "bin_loop L A dt s3 rng (i + 1) (nb + 1) [] (out @ [b]) = Inr out'"
        by (auto split: sum.splits)
      from Cons.IH [OF run] obtain bs new where
        "buf_loop dt s3 rng (i + 1) (nb + 1) [] = Inr bs" "out' = (out @ [b]) @ new"
        "list_all2 (\<lambda>b (n, w). flush L A n dt w = Inr b) new bs"
        by blast
      with outside True b have "buf_loop dt s3 (p # rng) i nb work = Inr ((nb, work) # bs)"
        "out' = out @ (b # new)"
        "list_all2 (\<lambda>b (n, w). flush L A n dt w = Inr b) (b # new) ((nb, work) # bs)"
        by simp_all
      then show ?thesis by blast
    next
      case False
      with outside Cons.prems
      have run: "bin_loop L A dt s3 rng (i + 1) (nb + 1) [] out = Inr out'"
        by simp
      from Cons.IH [OF run] obtain bs new where
        "buf_loop dt s3 rng (i + 1) (nb + 1) [] = Inr bs" "out' = out @ new"
        "list_all2 (\<lambda>b (n, w). flush L A n dt w = Inr b) new bs"
        by blast
      with outside False have "buf_loop dt s3 (p # rng) i nb work = Inr bs"
        "out' = out @ new" "list_all2 (\<lambda>b (n, w). flush L A n dt w = Inr b) new bs"
        by simp_all
      then show ?thesis by blast
    qed
  next
    case inside: False
    with Cons.prems have i: "i < length s3"
      and run: "bin_loop L A dt s3 rng (i + 1) nb (work @ [s3 ! i]) out = Inr out'"
      by (auto split: if_splits)
    from Cons.IH [OF run] inside i show ?thesis by simp
  qed
qed

lemma bin_phases_buffers:
  assumes "bin_phases L A s3 = Inr b4"
  shows "\<exists>bs. bin_buffers (nbins A) s3 = Inr bs \<and>
           list_all2 (\<lambda>b (n, w). flush L A n (1 / real_of_int (nbins A)) w = Inr b) b4 bs"
proof -
  from assms obtain r0 rest where s3: "s3 = r0 # rest" and n: "nbins A \<noteq> 0"
    and run: "bin_loop L A (1 / real_of_int (nbins A)) s3
                (map p_phase s3 @ [fadd (p_phase r0) (Finite 1)]) 0 0 [r0] [] = Inr b4"
    by (auto simp: bin_phases_def split: list.splits if_splits)
  from bin_loop_buffers [OF run] s3 n show ?thesis
    by (auto simp: bin_buffers_def)
qed

lemma list_all2_flush_col:
  assumes "list_all2 (\<lambda>b (n, w). flush L A n dt w = Inr b) new bs"
    and "\<And>b n w. flush L A n dt w = Inr b \<Longrightarrow> f b = g n w"
  shows "map f new = map (\<lambda>(n, w). g n w) bs"
  using assms(1)
proof (induction rule: list_all2_induct)
  case Nil
  show ?case by simp
next
  case (Cons b new nw bs)
  obtain n w where "nw = (n, w)" by (cases nw)
  with Cons assms(2) show ?case by simp
qed

lemmas demo_eval = bin_phases_def demo_sorted_def demo_prow_def mk_ptuple_def demo_row_def
  demo_args_def demo_lib_def flush_def clipfit_def nanmean_def nanmedian_def flt_ge_def flt_le_def
  bin_buffers_def

lemmas core_eval = kepfold_core_def sort_stage_def ptuples_def py_sorted_def calc_phase_def
  adjust_bjd0_def fsub_def scale_def mk_ptuple_def select_cols_sap flt_gt_def demo_env_def
  demo_args_def demo_row_def wrap_expand_def series_of_def plot_channel_def flt_le_def

lemma buf_loop_subset:
  "buf_loop dt s3 rng i nb work = Inr bs \<Longrightarrow> (n, w) \<in> set bs \<Longrightarrow> set w \<subseteq> set s3 \<union> set work"
proof (induction rng arbitrary: i nb work bs)
  case Nil
  then show ?case by simp
next
  case (Cons p rng)
  show ?case
  proof (cases "flt_lt p (Finite (nb * dt)) \<or> flt_ge p (Finite ((nb + 1) * dt))")
    case True
    with Cons.prems(1) obtain bs' where run: "buf_loop dt s3 rng (i + 1) (nb + 1) [] = Inr bs'"
      and bs: "bs = (if length work > 0 then (nb, work) # bs' else bs')"
      by (auto split: sum.splits)
    from bs Cons.prems(2) have "(n, w) = (nb, work) \<or> (n, w) \<in> set bs'"
      by (auto split: if_splits)
    then show ?thesis
    proof
      assume "(n, w) = (nb, work)"
      then show ?thesis by auto
    next
      assume "(n, w) \<in> set bs'"
      from Cons.IH [OF run this] show ?thesis by auto
    qed
  next
    case False
    with Cons.prems(1) have i: "i < length s3"
      and run: "buf_loop dt s3 rng (i + 1) nb (work @ [s3 ! i]) = Inr bs"
      by (auto split: if_splits)
    from Cons.IH [OF run Cons.prems(2)] i show ?thesis by auto
  qed
qed

lemma bin_buffers_subset:
  assumes "bin_buffers k s3 = Inr bs" and "(n, w) \<in> set bs"
  shows "set w \<subseteq> set s3"
proof -
  from assms(1) obtain r0 rest where s3: "s3 = r0 # rest"
    and run: "buf_loop (1 / real_of_int k) s3
                (map p_phase s3 @ [fadd (p_phase r0) (Finite 1)]) 0 0 [r0] = Inr bs"
    by (auto simp: bin_buffers_def split: list.splits if_splits)
  from buf_loop_subset [OF run assms(2)] s3 show ?thesis by auto
qed

lemma ptuples_cbverr: "r \<in> set (ptuples E A work) \<Longrightarrow> p_cbverr r = p_saperr r"
  by (auto simp: ptuples_def mk_ptuple_def)

lemma bin_phases_cbverr:
  assumes "bin_phases L A s3 = Inr b4" and s3: "\<forall>r\<in>set s3. p_cbverr r = p_saperr r"
  shows "map p_cbverr b4 = map p_saperr b4"
proof -
  from bin_phases_buffers [OF assms(1)] obtain bs where
    bs: "bin_buffers (nbins A) s3 = Inr bs"
    and rel: "list_all2 (\<lambda>b (n, w). flush L A n (1 / real_of_int (nbins A)) w = Inr b) b4 bs"
    by blast
  have c: "map p_cbverr b4 = map (\<lambda>(n, w). mean_err L (map p_cbverr w)) bs"
    by (rule list_all2_flush_col [OF rel]) (rule flush_errs)
  have s: "map p_saperr b4 = map (\<lambda>(n, w). mean_err L (map p_saperr w)) bs"
    by (rule list_all2_flush_col [OF rel]) (rule flush_errs)
  have "map (\<lambda>(n, w). mean_err L (map p_cbverr w)) bs
      = map (\<lambda>(n, w). mean_err L (map p_saperr w)) bs"
  proof (rule map_cong [OF refl])
    fix nw assume nw: "nw \<in> set bs"
    obtain n w where nw_eq: "nw = (n, w)" by (cases nw)
    from bin_buffers_subset [OF bs] nw nw_eq have "set w \<subseteq> set s3" by simp
    with s3 have eq: "map p_cbverr w = map p_saperr w" by auto
    show "(case nw of (n, w) \<Rightarrow> mean_err L (map p_cbverr w))
        = (case nw of (n, w) \<Rightarrow> mean_err L (map p_saperr w))"
      by (simp only: nw_eq prod.case eq)
  qed
  with c s show ?thesis by simp
qed

lemma fdiv_one: "fdiv x (Finite 1) = x"
  by (cases x) simp_all

lemma fdiv_NaN_iff: "c \<noteq> 0 \<Longrightarrow> (fdiv x (Finite c) = NaN) = (x = NaN)"
  by (cases x) simp_all

lemma fadd_fdiv:
  "c \<noteq> 0 \<Longrightarrow> fadd (fdiv a (Finite c)) (fdiv b (Finite c)) = fdiv (fadd a b) (Finite c)"
  by (cases a; cases b) (simp_all add: add_divide_distrib)

lemma fdiv_fdiv_comm:
  "c \<noteq> 0 \<Longrightarrow> 0 < n \<Longrightarrow>
     fdiv (fdiv x (Finite c)) (Finite n) = fdiv (fdiv x (Finite n)) (Finite c)"
  by (cases x) simp_all

lemma fdiv_twice: "c \<noteq> 0 \<Longrightarrow> fdiv (fdiv x (Finite c)) (Finite c) = fdiv x (Finite (c * c))"
  by (cases x) (simp_all add: zero_le_mult_iff)

lemma foldl_fadd_scale:
  "c \<noteq> 0 \<Longrightarrow> foldl fadd (fdiv s (Finite c)) (map (\<lambda>x. fdiv x (Finite c)) ys)
     = fdiv (foldl fadd s ys) (Finite c)"
  by (induction ys arbitrary: s) (simp_all add: fadd_fdiv)

lemma nanmean_scale:
  assumes "c \<noteq> 0"
  shows "nanmean (map (\<lambda>x. fdiv x (Finite c)) xs) = fdiv (nanmean xs) (Finite c)"
proof -
  let ?g = "\<lambda>x. fdiv x (Finite c)"
  have f: "filter (\<lambda>x. x \<noteq> NaN) (map ?g xs) = map ?g (filter (\<lambda>x. x \<noteq> NaN) xs)"
    using assms by (simp add: filter_map comp_def fdiv_NaN_iff)
  show ?thesis
  proof (cases "filter (\<lambda>x. x \<noteq> NaN) xs = []")
    case True
    with f show ?thesis by (simp add: nanmean_def)
  next
    case False
    let ?ys = "filter (\<lambda>x. x \<noteq> NaN) xs"
    from False have n: "0 < real (length ?ys)" by simp
    have "foldl fadd (Finite 0) (map ?g ?ys) = fdiv (foldl fadd (Finite 0) ?ys) (Finite c)"
      using foldl_fadd_scale [OF assms, of "Finite 0" ?ys] assms by simp
    moreover have "fdiv (fdiv (foldl fadd (Finite 0) ?ys) (Finite c)) (Finite (real (length ?ys)))
        = fdiv (fdiv (foldl fadd (Finite 0) ?ys) (Finite (real (length ?ys)))) (Finite c)"
      by (rule fdiv_fdiv_comm [OF assms n])
    ultimately show ?thesis using False f
      by (simp add: nanmean_def Let_def)
  qed
qed

lemma pscale_phase: "p_phase (pscale c r) = p_phase r"
  by (simp add: pscale_def)

lemma ptuples_scale:
  "ptuples E A work = map (pscale (cadenom E)) (ptuples (E\<lparr>cadenom := 1\<rparr>) A work)"
  by (simp add: ptuples_def mk_ptuple_def scale_def pscale_def fdiv_one comp_def)

lemma py_insort_map:
  assumes "\<And>r. p_phase (g r) = p_phase r"
  shows "py_insort (g x) (map g ys) = map g (py_insort x ys)"
  by (induction ys) (simp_all add: assms)

lemma py_sorted_map:
  assumes "\<And>r. p_phase (g r) = p_phase r"
  shows "py_sorted (map g xs) = map g (py_sorted xs)"
proof (induction xs)
  case Nil
  show ?case by (simp add: py_sorted_def)
next
  case (Cons x xs)
  then have "py_insort (g x) (py_sorted (map g xs)) = map g (py_insort x (py_sorted xs))"
    by (simp add: py_insort_map [OF assms])
  then show ?case by (simp add: py_sorted_def)
qed

lemma sort_stage_scale:
  "sort_stage E A work = map (pscale (cadenom E)) (sort_stage (E\<lparr>cadenom := 1\<rparr>) A work)"
proof -
  have "sort_stage E A work
      = py_sorted (map (pscale (cadenom E)) (ptuples (E\<lparr>cadenom := 1\<rparr>) A work))"
    unfolding sort_stage_def by (subst ptuples_scale) (rule refl)
  also have "\<dots> = map (pscale (cadenom E)) (py_sorted (ptuples (E\<lparr>cadenom := 1\<rparr>) A work))"
    by (rule py_sorted_map) (rule pscale_phase)
  finally show ?thesis by (simp add: sort_stage_def)
qed

lemma buf_loop_map:
  "buf_loop dt (map g s3) rng i nb (map g work)
     = (case buf_loop dt s3 rng i nb work of
          Inl e \<Rightarrow> Inl e
        | Inr bs \<Rightarrow> Inr (map (\<lambda>(n, w). (n, map g w)) bs))"
proof (induction rng arbitrary: i nb work)
  case Nil
  show ?case by simp
next
  case (Cons p rng)
  show ?case
  proof (cases "flt_lt p (Finite (nb * dt)) \<or> flt_ge p (Finite ((nb + 1) * dt))")
    case True
    have ih: "buf_loop dt (map g s3) rng (i + 1) (nb + 1) []
        = (case buf_loop dt s3 rng (i + 1) (nb + 1) [] of
             Inl e \<Rightarrow> Inl e
           | Inr bs \<Rightarrow> Inr (map (\<lambda>(n, w). (n, map g w)) bs))"
      using Cons.IH [of "i + 1" "nb + 1" "[]"] by (simp only: list.map)
    show ?thesis
    proof (cases "buf_loop dt s3 rng (i + 1) (nb + 1) []")
      case (Inl e)
      with ih have "buf_loop dt (map g s3) rng (i + 1) (nb + 1) [] = Inl e" by simp
      with True Inl show ?thesis by simp
    next
      case (Inr bs)
      with ih have "buf_loop dt (map g s3) rng (i + 1) (nb + 1) []
          = Inr (map (\<lambda>(n, w). (n, map g w)) bs)" by simp
      with True Inr show ?thesis by simp
    qed
  next
    case False
    show ?thesis
    proof (cases "i < length s3")
      case True
      have "map g work @ [map g s3 ! i] = map g (work @ [s3 ! i])"
        using True by simp
      with Cons.IH [of "i + 1" nb "work @ [s3 ! i]"]
      have "buf_loop dt (map g s3) rng (i + 1) nb (map g work @ [map g s3 ! i])
          = (case buf_loop dt s3 rng (i + 1) nb (work @ [s3 ! i]) of
               Inl e \<Rightarrow> Inl e
             | Inr bs \<Rightarrow> Inr (map (\<lambda>(n, w). (n, map g w)) bs))"
        by (simp only:)
      with False True show ?thesis by simp
    next
      case no: False
      with False show ?thesis by simp
    qed
  qed
qed

lemma bin_buffers_map:
  assumes "\<And>r. p_phase (g r) = p_phase r"
  shows "bin_buffers k (map g s3)
     = (case bin_buffers k s3 of
          Inl e \<Rightarrow> Inl e
        | Inr bs \<Rightarrow> Inr (map (\<lambda>(n, w). (n, map g w)) bs))"
proof (cases s3)
  case Nil
  then show ?thesis by (simp add: bin_buffers_def)
next
  case (Cons r0 rest)
  have "buf_loop (1 / real_of_int k) (map g s3)
          (map p_phase s3 @ [fadd (p_phase r0) (Finite 1)]) 0 0 (map g [r0])
      = (case buf_loop (1 / real_of_int k) s3
             (map p_phase s3 @ [fadd (p_phase r0) (Finite 1)]) 0 0 [r0] of
           Inl e \<Rightarrow> Inl e
         | Inr bs \<Rightarrow> Inr (map (\<lambda>(n, w). (n, map g w)) bs))"
    by (rule buf_loop_map)
  with Cons show ?thesis
    by (simp add: bin_buffers_def assms comp_def)
qed

lemma flt_lt_scale: "0 < c \<Longrightarrow> flt_lt (fdiv y (Finite c)) (fdiv x (Finite c)) = flt_lt y x"
  by (cases x; cases y) (simp_all add: divide_strict_right_mono divide_less_cancel)

lemma flt_insort_scale:
  "0 < c \<Longrightarrow> flt_insort (fdiv x (Finite c)) (map (\<lambda>x. fdiv x (Finite c)) ys)
     = map (\<lambda>x. fdiv x (Finite c)) (flt_insort x ys)"
  by (induction ys) (simp_all add: flt_lt_scale)

lemma flt_sort_scale:
  "0 < c \<Longrightarrow> foldr flt_insort (map (\<lambda>x. fdiv x (Finite c)) ys) []
     = map (\<lambda>x. fdiv x (Finite c)) (foldr flt_insort ys [])"
  by (induction ys) (simp_all add: flt_insort_scale)

lemma nanmedian_scale:
  assumes "0 < c"
  shows "nanmedian (map (\<lambda>x. fdiv x (Finite c)) xs) = fdiv (nanmedian xs) (Finite c)"
proof -
  let ?g = "\<lambda>x. fdiv x (Finite c)"
  let ?ys = "foldr flt_insort (filter (\<lambda>x. x \<noteq> NaN) xs) []"
  from assms have c: "c \<noteq> 0" by simp
  have f: "filter (\<lambda>x. x \<noteq> NaN) (map ?g xs) = map ?g (filter (\<lambda>x. x \<noteq> NaN) xs)"
    using c by (simp add: filter_map comp_def fdiv_NaN_iff)
  have s: "foldr flt_insort (filter (\<lambda>x. x \<noteq> NaN) (map ?g xs)) [] = map ?g ?ys"
    unfolding f by (rule flt_sort_scale [OF assms])
  show ?thesis
  proof (cases "length ?ys = 0")
    case True
    then show ?thesis unfolding nanmedian_def s by (simp add: Let_def)
  next
    case False
    then have pos: "0 < length ?ys" by simp
    then have hi: "length ?ys div 2 < length ?ys" and lo: "length ?ys div 2 - 1 < length ?ys"
      by linarith+
    have "fdiv (fadd (?g (?ys ! (length ?ys div 2 - 1))) (?g (?ys ! (length ?ys div 2)))) (Finite 2)
        = fdiv (fdiv (fadd (?ys ! (length ?ys div 2 - 1)) (?ys ! (length ?ys div 2))) (Finite 2))
            (Finite c)"
      unfolding fadd_fdiv [OF c] by (rule fdiv_fdiv_comm [OF c]) simp
    with False hi lo show ?thesis unfolding nanmedian_def s
      by (simp add: Let_def)
  qed
qed

lemma flush_total:
  assumes "binmethod A = ''mean'' \<or> binmethod A = ''median''"
  shows "\<exists>b. flush L A n dt w = Inr b"
  using assms by (auto simp: flush_def)

lemma bin_loop_total:
  assumes tot: "\<And>n w. \<exists>b. flush L A n dt w = Inr b"
  shows "buf_loop dt s3 rng i nb work = Inr bs \<Longrightarrow>
     \<exists>new. bin_loop L A dt s3 rng i nb work out = Inr (out @ new) \<and>
       list_all2 (\<lambda>b (n, w). flush L A n dt w = Inr b) new bs"
proof (induction rng arbitrary: i nb work out bs)
  case Nil
  then show ?case by simp
next
  case (Cons p rng)
  show ?case
  proof (cases "flt_lt p (Finite (nb * dt)) \<or> flt_ge p (Finite ((nb + 1) * dt))")
    case outside: True
    with Cons.prems obtain bs' where run: "buf_loop dt s3 rng (i + 1) (nb + 1) [] = Inr bs'"
      and bs: "bs = (if length work > 0 then (nb, work) # bs' else bs')"
      by (auto split: sum.splits)
    show ?thesis
    proof (cases "length work > 0")
      case True
      from tot obtain b where b: "flush L A nb dt work = Inr b" by blast
      from Cons.IH [OF run, of "out @ [b]"] obtain new where
        "bin_loop L A dt s3 rng (i + 1) (nb + 1) [] (out @ [b]) = Inr ((out @ [b]) @ new)"
        "list_all2 (\<lambda>b (n, w). flush L A n dt w = Inr b) new bs'"
        by blast
      with outside True b bs
      have "bin_loop L A dt s3 (p # rng) i nb work out = Inr (out @ (b # new))"
        "list_all2 (\<lambda>b (n, w). flush L A n dt w = Inr b) (b # new) bs"
        by simp_all
      then show ?thesis by blast
    next
      case False
      from Cons.IH [OF run, of out] obtain new where
        "bin_loop L A dt s3 rng (i + 1) (nb + 1) [] out = Inr (out @ new)"
        "list_all2 (\<lambda>b (n, w). flush L A n dt w = Inr b) new bs'"
        by blast
      with outside False bs
      have "bin_loop L A dt s3 (p # rng) i nb work out = Inr (out @ new)"
        "list_all2 (\<lambda>b (n, w). flush L A n dt w = Inr b) new bs"
        by simp_all
      then show ?thesis by blast
    qed
  next
    case inside: False
    with Cons.prems have i: "i < length s3"
      and run: "buf_loop dt s3 rng (i + 1) nb (work @ [s3 ! i]) = Inr bs"
      by (auto split: if_splits)
    from Cons.IH [OF run, of out] obtain new where
      "bin_loop L A dt s3 rng (i + 1) nb (work @ [s3 ! i]) out = Inr (out @ new)"
      "list_all2 (\<lambda>b (n, w). flush L A n dt w = Inr b) new bs"
      by blast
    with inside i have "bin_loop L A dt s3 (p # rng) i nb work out = Inr (out @ new)"
      "list_all2 (\<lambda>b (n, w). flush L A n dt w = Inr b) new bs"
      by simp_all
    then show ?thesis by blast
  qed
qed

lemma bin_phases_total:
  assumes "binmethod A = ''mean'' \<or> binmethod A = ''median''"
    and "bin_buffers (nbins A) s3 = Inr bs"
  shows "\<exists>b4. bin_phases L A s3 = Inr b4 \<and>
           list_all2 (\<lambda>b (n, w). flush L A n (1 / real_of_int (nbins A)) w = Inr b) b4 bs"
proof -
  from assms(2) obtain r0 rest where s3: "s3 = r0 # rest" and n: "nbins A \<noteq> 0"
    and run: "buf_loop (1 / real_of_int (nbins A)) s3
                (map p_phase s3 @ [fadd (p_phase r0) (Finite 1)]) 0 0 [r0] = Inr bs"
    by (auto simp: bin_buffers_def split: list.splits if_splits)
  from bin_loop_total [OF flush_total [OF assms(1)] run, of L "[]"] s3 n show ?thesis
    by (auto simp: bin_phases_def)
qed

lemma list_all2_flush_pair:
  assumes "list_all2 (\<lambda>b (n, w). flush L A n dt w = Inr b) b4 (map (\<lambda>(n, w). (n, map g w)) bs1)"
    and "list_all2 (\<lambda>b (n, w). flush L A n dt w = Inr b) b41 bs1"
    and "\<And>b b1 n w. flush L A n dt (map g w) = Inr b \<Longrightarrow> flush L A n dt w = Inr b1
           \<Longrightarrow> f b = h (f b1)"
  shows "map f b4 = map h (map f b41)"
  using assms(1,2)
proof (induction bs1 arbitrary: b4 b41)
  case Nil
  then show ?case by simp
next
  case (Cons nw bs1)
  obtain n w where nw: "nw = (n, w)" by (cases nw)
  from Cons.prems(1) nw obtain b bt where b4: "b4 = b # bt"
    and b: "flush L A n dt (map g w) = Inr b"
    and bt: "list_all2 (\<lambda>b (n, w). flush L A n dt w = Inr b) bt (map (\<lambda>(n, w). (n, map g w)) bs1)"
    by (auto simp: list_all2_Cons2)
  from Cons.prems(2) nw obtain b1 bt1 where b41: "b41 = b1 # bt1"
    and b1: "flush L A n dt w = Inr b1"
    and bt1: "list_all2 (\<lambda>b (n, w). flush L A n dt w = Inr b) bt1 bs1"
    by (auto simp: list_all2_Cons2)
  from Cons.IH [OF bt bt1] assms(3) [OF b b1] b4 b41 show ?case by simp
qed

lemma pscale_cols:
  "map p_sap (map (pscale c) w) = map (\<lambda>x. fdiv x (Finite c)) (map p_sap w)"
  "map p_saperr (map (pscale c) w) = map (\<lambda>x. fdiv x (Finite c)) (map p_saperr w)"
  "map p_pdc (map (pscale c) w) = map (\<lambda>x. fdiv x (Finite c)) (map p_pdc w)"
  "map p_pdcerr (map (pscale c) w) = map (\<lambda>x. fdiv x (Finite c)) (map p_pdcerr w)"
  "map p_cbv (map (pscale c) w) = map (\<lambda>x. fdiv x (Finite c)) (map p_cbv w)"
  "map p_cbverr (map (pscale c) w) = map (\<lambda>x. fdiv x (Finite c)) (map p_cbverr w)"
  "map p_det (map (pscale c) w) = map (\<lambda>x. fdiv x (Finite c)) (map p_det w)"
  "map p_deterr (map (pscale c) w) = map (\<lambda>x. fdiv x (Finite c)) (map p_deterr w)"
  by (simp_all add: pscale_def comp_def)

lemma flush_scale_vals:
  assumes c: "c \<noteq> 0"
    and m: "binmethod A = ''mean'' \<or> (binmethod A = ''median'' \<and> 0 < c)"
    and b: "flush L A n dt (map (pscale c) w) = Inr b"
    and b1: "flush L A n dt w = Inr b1"
  shows "p_phase b = p_phase b1 \<and> p_sap b = fdiv (p_sap b1) (Finite c) \<and>
    p_pdc b = fdiv (p_pdc b1) (Finite c) \<and> p_cbv b = fdiv (p_cbv b1) (Finite c) \<and>
    p_det b = fdiv (p_det b1) (Finite c)"
  using m
proof
  assume mean: "binmethod A = ''mean''"
  from b have "b = \<lparr>p_phase = Finite ((n + 0.5) * dt),
           p_sap = nanmean (map p_sap (map (pscale c) w)),
           p_saperr = mean_err L (map p_saperr (map (pscale c) w)),
           p_pdc = nanmean (map p_pdc (map (pscale c) w)),
           p_pdcerr = mean_err L (map p_pdcerr (map (pscale c) w)),
           p_cbv = nanmean (map p_cbv (map (pscale c) w)),
           p_cbverr = mean_err L (map p_cbverr (map (pscale c) w)),
           p_det = nanmean (map p_det (map (pscale c) w)),
           p_deterr = mean_err L (map p_deterr (map (pscale c) w))\<rparr>"
    by (simp add: flush_def mean)
  moreover from b1 have "b1 = \<lparr>p_phase = Finite ((n + 0.5) * dt),
           p_sap = nanmean (map p_sap w), p_saperr = mean_err L (map p_saperr w),
           p_pdc = nanmean (map p_pdc w), p_pdcerr = mean_err L (map p_pdcerr w),
           p_cbv = nanmean (map p_cbv w), p_cbverr = mean_err L (map p_cbverr w),
           p_det = nanmean (map p_det w), p_deterr = mean_err L (map p_deterr w)\<rparr>"
    by (simp add: flush_def mean)
  ultimately show ?thesis
    by (simp add: pscale_cols nanmean_scale [OF c] del: map_map)
next
  assume "binmethod A = ''median'' \<and> 0 < c"
  then have median: "binmethod A = ''median''" and pos: "0 < c" by simp_all
  from b have "b = \<lparr>p_phase = Finite ((n + 0.5) * dt),
           p_sap = nanmedian (map p_sap (map (pscale c) w)),
           p_saperr = mean_err L (map p_saperr (map (pscale c) w)),
           p_pdc = nanmedian (map p_pdc (map (pscale c) w)),
           p_pdcerr = mean_err L (map p_pdcerr (map (pscale c) w)),
           p_cbv = nanmedian (map p_cbv (map (pscale c) w)),
           p_cbverr = mean_err L (map p_cbverr (map (pscale c) w)),
           p_det = nanmedian (map p_det (map (pscale c) w)),
           p_deterr = mean_err L (map p_deterr (map (pscale c) w))\<rparr>"
    by (simp add: flush_def median)
  moreover from b1 have "b1 = \<lparr>p_phase = Finite ((n + 0.5) * dt),
           p_sap = nanmedian (map p_sap w), p_saperr = mean_err L (map p_saperr w),
           p_pdc = nanmedian (map p_pdc w), p_pdcerr = mean_err L (map p_pdcerr w),
           p_cbv = nanmedian (map p_cbv w), p_cbverr = mean_err L (map p_cbverr w),
           p_det = nanmedian (map p_det w), p_deterr = mean_err L (map p_deterr w)\<rparr>"
    by (simp add: flush_def median)
  ultimately show ?thesis
    by (simp add: pscale_cols nanmedian_scale [OF pos] del: map_map)
qed

lemma flush_scale_errs:
  assumes hom: "\<And>xs. mean_err L (map (\<lambda>x. fdiv x (Finite c)) xs) = fdiv (mean_err L xs) (Finite c)"
    and b: "flush L A n dt (map (pscale c) w) = Inr b"
    and b1: "flush L A n dt w = Inr b1"
  shows "p_saperr b = fdiv (p_saperr b1) (Finite c)" "p_pdcerr b = fdiv (p_pdcerr b1) (Finite c)"
    "p_deterr b = fdiv (p_deterr b1) (Finite c)"
  using flush_errs [OF b, unfolded pscale_cols hom] flush_errs [OF b1] by simp_all

lemma folded_cols:
  "f_PHASE (folded_table c b4) = map p_phase b4"
  "f_SAP_FLUX (folded_table c b4) = map (\<lambda>v. fdiv v (Finite c)) (map p_sap b4)"
  "f_SAP_FLUX_ERR (folded_table c b4) = map (\<lambda>v. fdiv v (Finite c)) (map p_saperr b4)"
  "f_PDC_FLUX (folded_table c b4) = map (\<lambda>v. fdiv v (Finite c)) (map p_pdc b4)"
  "f_PDC_FLUX_ERR (folded_table c b4) = map (\<lambda>v. fdiv v (Finite c)) (map p_pdcerr b4)"
  "f_CBV_FLUX (folded_table c b4) = map (\<lambda>v. fdiv v (Finite c)) (map p_cbv b4)"
  "f_DET_FLUX (folded_table c b4) = map (\<lambda>v. fdiv v (Finite c)) (map p_det b4)"
  "f_DET_FLUX_ERR (folded_table c b4) = map (\<lambda>v. fdiv v (Finite c)) (map p_deterr b4)"
  by (simp_all add: folded_table_def comp_def)

lemma col_squared:
  assumes "c \<noteq> 0" and "col = map (\<lambda>v. fdiv v (Finite c)) col1"
  shows "map (\<lambda>v. fdiv v (Finite c)) col
       = map (\<lambda>v. fdiv v (Finite (c * c))) (map (\<lambda>v. fdiv v (Finite 1)) col1)"
  using assms by (simp add: fdiv_twice fdiv_one comp_def)

lemma pow2_pos: "0 < pow2 e"
  by (simp add: pow2_def)

lemma pow2_nonpos: "m \<le> 0 \<Longrightarrow> pow2 m = 1 / 2 ^ nat (- m)"
  by (simp add: pow2_def)

lemma fexp_down_le: "fexp_down x e \<le> e"
proof (induction x e rule: fexp_down.induct)
  case (1 x e)
  show ?case
  proof (cases "0 < x \<and> x < 1")
    case True
    then have "fexp_down x e = fexp_down (2 * x) (e - 1)"
      by (subst fexp_down.simps) simp
    also from 1 [OF True] have "\<dots> \<le> e - 1" .
    finally show ?thesis by simp
  next
    case False
    then have "fexp_down x e = e" by (subst fexp_down.simps) auto
    then show ?thesis by simp
  qed
qed

lemma fexp_below_one:
  assumes "0 < x" and "x < 1"
  shows "fexp x \<le> - 1"
proof -
  from assms have "fexp x = fexp_down x 0" by (simp add: fexp_def)
  also from assms have "\<dots> = fexp_down (2 * x) (- 1)" by (subst fexp_down.simps) simp
  also have "\<dots> \<le> - 1" by (rule fexp_down_le)
  finally show ?thesis .
qed

lemma rne_cases: "rne y = \<lfloor>y\<rfloor> \<or> (rne y = \<lfloor>y\<rfloor> + 1 \<and> of_int \<lfloor>y\<rfloor> < y)"
  by (auto simp: rne_def Let_def)

lemma rne_bounds:
  assumes "0 \<le> y" and "y \<le> of_int N"
  shows "0 \<le> rne y \<and> rne y \<le> N"
proof -
  from assms(1) have f0: "0 \<le> \<lfloor>y\<rfloor>" by simp
  from assms(2) have fN: "\<lfloor>y\<rfloor> \<le> N" by (simp add: floor_le_iff)
  from rne_cases [of y] show ?thesis
  proof
    assume "rne y = \<lfloor>y\<rfloor>"
    with f0 fN show ?thesis by simp
  next
    assume a: "rne y = \<lfloor>y\<rfloor> + 1 \<and> of_int \<lfloor>y\<rfloor> < y"
    with assms(2) have "of_int \<lfloor>y\<rfloor> < (of_int N :: real)" by linarith
    then have "\<lfloor>y\<rfloor> < N" by simp
    with a f0 show ?thesis by simp
  qed
qed

lemma rne_of_int: "rne (of_int n) = n"
  by (simp add: rne_def)

lemma round_bin_unit:
  assumes "0 \<le> x" and "x < 1" and "emin \<le> - 1"
  shows "0 \<le> round_bin p emin x \<and> round_bin p emin x \<le> 1"
proof (cases "x = 0")
  case True
  then show ?thesis by (simp add: round_bin_def)
next
  case False
  with assms(1) have pos: "0 < x" by simp
  define m where "m = max (fexp x) emin - int p + 1"
  from fexp_below_one [OF pos assms(2)] assms(3) have m: "m \<le> 0" by (simp add: m_def)
  define k where "k = nat (- m)"
  have u: "pow2 m = 1 / 2 ^ k" unfolding k_def by (rule pow2_nonpos [OF m])
  have y0: "0 \<le> x * 2 ^ k" using assms(1) by simp
  have "x * 2 ^ k \<le> 1 * 2 ^ k" using assms(2) by (intro mult_right_mono) simp_all
  then have yN: "x * 2 ^ k \<le> of_int (2 ^ k)" by simp
  from rne_bounds [OF y0 yN] have r: "0 \<le> rne (x * 2 ^ k)" "rne (x * 2 ^ k) \<le> 2 ^ k"
    by simp_all
  have rb: "round_bin p emin x = of_int (rne (x * 2 ^ k)) / 2 ^ k"
    using False by (simp add: round_bin_def Let_def m_def [symmetric] u)
  from r(2) have "(of_int (rne (x * 2 ^ k)) :: real) \<le> of_int (2 ^ k)"
    by (simp only: of_int_le_iff)
  then have "(of_int (rne (x * 2 ^ k)) :: real) / 2 ^ k \<le> 1" by simp
  moreover from r(1) have "0 \<le> (of_int (rne (x * 2 ^ k)) :: real) / 2 ^ k" by simp
  ultimately show ?thesis by (simp add: rb)
qed

lemma fexp_one: "fexp 1 = 0"
  by (simp add: fexp_def fexp_up.simps)

lemma round_bin_one:
  assumes "1 \<le> p" and "emin \<le> 0"
  shows "round_bin p emin 1 = 1"
proof -
  define k where "k = p - 1"
  from assms(1) have m: "1 - int p \<le> 0" and k: "nat (- (1 - int p)) = k"
    by (simp_all add: k_def)
  have u: "pow2 (1 - int p) = 1 / 2 ^ k" using pow2_nonpos [OF m] k by simp
  have "rne (2 ^ k) = 2 ^ k" using rne_of_int [of "2 ^ k"] by simp
  with assms(2) u show ?thesis
    by (simp add: round_bin_def Let_def fexp_one max_def)
qed

lemma to_float_unit:
  assumes "0 \<le> x" and "x \<le> 1" and "1 \<le> p" and "emin \<le> - 1" and "0 \<le> emax"
  shows "\<exists>y. to_float p emin emax x = Finite y \<and> 0 \<le> y \<and> y \<le> 1"
proof -
  have rb: "0 \<le> round_bin p emin x \<and> round_bin p emin x \<le> 1"
  proof (cases "x = 1")
    case True
    with round_bin_one [OF assms(3), of emin] assms(4) show ?thesis by simp
  next
    case False
    with assms(2) have "x < 1" by simp
    from round_bin_unit [OF assms(1) this assms(4)] show ?thesis .
  qed
  from assms(5) have "(2::real) ^ 1 \<le> 2 ^ nat (emax + 1)"
    by (intro power_increasing) simp_all
  with assms(5) have "2 \<le> pow2 (emax + 1)" by (simp add: pow2_def)
  with rb have "\<not> pow2 (emax + 1) \<le> \<bar>round_bin p emin x\<bar>" by simp
  with rb show ?thesis by (simp add: to_float_def Let_def)
qed

lemma rnd64_unit:
  assumes "0 \<le> x" and "x \<le> 1"
  shows "\<exists>y. rnd64 x = Finite y \<and> 0 \<le> y \<and> y \<le> 1"
proof -
  have "\<exists>y. to_float 53 (- 1022) 1023 x = Finite y \<and> 0 \<le> y \<and> y \<le> 1"
    using assms by (intro to_float_unit) simp_all
  then show ?thesis by (simp only: rnd64_def)
qed

lemma cast32_unit:
  assumes "0 \<le> x" and "x \<le> 1"
  shows "\<exists>y. cast32 x = Finite y \<and> 0 \<le> y \<and> y \<le> 1"
proof -
  have "\<exists>y. to_float 24 (- 126) 127 x = Finite y \<and> 0 \<le> y \<and> y \<le> 1"
    using assms by (intro to_float_unit) simp_all
  then show ?thesis by (simp only: cast32_def)
qed

lemma frac_part_rounded:
  "lift_rnd cast32 (lift_rnd rnd64 (fsub q (ffloor q))) = NaN \<or>
     (\<exists>x. lift_rnd cast32 (lift_rnd rnd64 (fsub q (ffloor q))) = Finite x \<and> 0 \<le> x \<and> x \<le> 1)"
proof (cases q)
  case (Finite v)
  have "0 \<le> v - of_int \<lfloor>v\<rfloor>" "v - of_int \<lfloor>v\<rfloor> \<le> 1" by linarith+
  from rnd64_unit [OF this] obtain y where y: "rnd64 (v - of_int \<lfloor>v\<rfloor>) = Finite y"
    "0 \<le> y" "y \<le> 1" by blast
  from cast32_unit [OF y(2,3)] obtain z where "cast32 y = Finite z" "0 \<le> z" "z \<le> 1" by blast
  with Finite y(1) show ?thesis by (simp add: fsub_def lift_rnd_def)
qed (simp_all add: fsub_def lift_rnd_def)

lemma calc_phase_exact_range:
  "calc_phase ref b0 per t = NaN \<or>
     (\<exists>x. calc_phase ref b0 per t = Finite x \<and> 0 \<le> x \<and> x < 1)"
proof (cases t)
  case (Finite v)
  show ?thesis
  proof (cases "per = 0")
    case True
    with Finite show ?thesis by (simp add: calc_phase_def fsub_def Let_def)
  next
    case False
    from calc_phase_range [OF False, of ref b0 v] Finite show ?thesis by simp
  qed
qed (simp_all add: calc_phase_def fsub_def Let_def)

lemma kepfold_core_PHASE:
  assumes "kepfold_core L E A = Inr out"
  shows "o_PHASE out = map (\<lambda>r. calc_phase (bjdref E) (adjust_bjd0 (bjdref E) (bjd0 A))
                              (period A) (barytime r)) (table E)"
  using assms by (auto simp: kepfold_core_def Let_def split: sum.splits if_splits)

lemma calc_phase_ieee_range:
  "calc_phase_ieee ref b0 per t = NaN \<or>
     (\<exists>x. calc_phase_ieee ref b0 per t = Finite x \<and> 0 \<le> x \<and> x \<le> 1)"
  unfolding calc_phase_ieee_def calc_phase_rnd_def Let_def by (rule frac_part_rounded)

lemma lift_rnd_inf:
  "lift_rnd r PosInf = PosInf" "lift_rnd r NegInf = NegInf" "lift_rnd r NaN = NaN"
  by (simp_all add: lift_rnd_def)

lemma frac_part_nonfinite: "\<not> isfinite q \<Longrightarrow> fsub q (ffloor q) = NaN"
  by (cases q) (simp_all add: fsub_def)

lemma calc_phase_ieee_nonfinite:
  assumes "\<not> isfinite t"
  shows "calc_phase_ieee ref b0 per t = NaN"
proof -
  from assms have d1: "\<not> isfinite (lift_rnd rnd64 (fadd t (Finite ref)))"
    by (cases t) (simp_all add: lift_rnd_inf)
  have d2: "\<not> isfinite (lift_rnd rnd64 (fsub d b0))" if "\<not> isfinite d" for d
    using that by (cases d; cases b0) (simp_all add: fsub_def lift_rnd_inf)
  have d3: "\<not> isfinite (lift_rnd rnd64 (fdiv d (Finite per)))" if "\<not> isfinite d" for d
    using that by (cases d) (simp_all add: lift_rnd_inf)
  from d3 [OF d2 [OF d1]] show ?thesis
    unfolding calc_phase_ieee_def calc_phase_rnd_def Let_def
    by (simp add: frac_part_nonfinite lift_rnd_inf)
qed

lemma calc_phase_rnd_exact:
  "calc_phase_rnd Finite Finite ref (Finite b0) per t = calc_phase ref b0 per t"
proof -
  have "lift_rnd Finite v = v" for v by (cases v) (simp_all add: lift_rnd_def)
  then show ?thesis by (simp add: calc_phase_rnd_def calc_phase_def)
qed

lemma calc_phase_ieee_no_overflow:
  assumes "rnd64 (tr + ref) = Finite a" and "rnd64 (a - b0r) = Finite d" and "per \<noteq> 0"
    and "rnd64 (d / per) = Finite q"
  shows "\<exists>x. calc_phase_ieee ref (Finite b0r) per (Finite tr) = Finite x \<and> 0 \<le> x \<and> x \<le> 1"
proof -
  have "0 \<le> q - of_int \<lfloor>q\<rfloor>" "q - of_int \<lfloor>q\<rfloor> \<le> 1" by linarith+
  from rnd64_unit [OF this] obtain y where y: "rnd64 (q - of_int \<lfloor>q\<rfloor>) = Finite y"
    "0 \<le> y" "y \<le> 1" by blast
  from cast32_unit [OF y(2,3)] obtain z where "cast32 y = Finite z" "0 \<le> z" "z \<le> 1" by blast
  with assms y(1) show ?thesis
    by (simp add: calc_phase_ieee_def calc_phase_rnd_def lift_rnd_def fsub_def)
qed

lemmas ieee_eval = calc_phase_ieee_def calc_phase_rnd_def lift_rnd_def rnd64_def cast32_def
  to_float_def round_bin_def fexp_def fexp_up.simps fexp_down.simps rne_def pow2_def fsub_def

lemma bin_uncertainty_is_mean_err:
  assumes "bin_phases L A s3 = Inr b4"
  shows "\<exists>bs. bin_buffers (nbins A) s3 = Inr bs
       \<and> map p_saperr b4 = map (\<lambda>(n, w). mean_err L (map p_saperr w)) bs
       \<and> map p_pdcerr b4 = map (\<lambda>(n, w). mean_err L (map p_pdcerr w)) bs
       \<and> map p_cbverr b4 = map (\<lambda>(n, w). mean_err L (map p_cbverr w)) bs
       \<and> map p_deterr b4 = map (\<lambda>(n, w). mean_err L (map p_deterr w)) bs"
proof -
  from bin_phases_buffers [OF assms] obtain bs where
    bs: "bin_buffers (nbins A) s3 = Inr bs"
    and rel: "list_all2 (\<lambda>b (n, w). flush L A n (1 / real_of_int (nbins A)) w = Inr b) b4 bs"
    by blast
  have "map p_saperr b4 = map (\<lambda>(n, w). mean_err L (map p_saperr w)) bs"
    by (rule list_all2_flush_col [OF rel]) (rule flush_errs)
  moreover have "map p_pdcerr b4 = map (\<lambda>(n, w). mean_err L (map p_pdcerr w)) bs"
    by (rule list_all2_flush_col [OF rel]) (rule flush_errs)
  moreover have "map p_cbverr b4 = map (\<lambda>(n, w). mean_err L (map p_cbverr w)) bs"
    by (rule list_all2_flush_col [OF rel]) (rule flush_errs)
  moreover have "map p_deterr b4 = map (\<lambda>(n, w). mean_err L (map p_deterr w)) bs"
    by (rule list_all2_flush_col [OF rel]) (rule flush_errs)
  ultimately show ?thesis using bs by blast
qed

lemma flush_raises:
  assumes "binmethod A \<noteq> ''mean''" and "binmethod A \<noteq> ''median''"
    and "\<And>g x y yerr lo hi n. lsqclip L g x y yerr lo hi n = Inl e"
  shows "flush L A nb dt work = Inl e"
  using assms by (simp add: flush_def clipfit_def)

lemma bin_loop_raises:
  assumes "binmethod A \<noteq> ''mean''" and "binmethod A \<noteq> ''median''"
    and "\<And>g x y yerr lo hi n. lsqclip L g x y yerr lo hi n = Inl e"
  shows "work \<noteq> [] \<Longrightarrow> rng \<noteq> [] \<Longrightarrow> length rng + i = length s3 + 1
     \<Longrightarrow> \<exists>e'. bin_loop L A dt s3 rng i nb work out = Inl e'"
proof (induction rng arbitrary: i nb work out)
  case Nil
  then show ?case by simp
next
  case (Cons p rng)
  show ?case
  proof (cases "flt_lt p (Finite (nb * dt)) \<or> flt_ge p (Finite ((nb + 1) * dt))")
    case True
    with Cons.prems(1) flush_raises [OF assms, of nb dt work] show ?thesis by simp
  next
    case inside: False
    show ?thesis
    proof (cases "i < length s3")
      case True
      with Cons.prems(3) have "rng \<noteq> []" "length rng + (i + 1) = length s3 + 1" by auto
      from Cons.IH [OF _ this, of "work @ [s3 ! i]" nb out] inside True show ?thesis by simp
    next
      case False
      with inside show ?thesis by simp
    qed
  qed
qed

lemma sigclip_never_succeeds:
  assumes "binmethod A \<noteq> ''mean''" and "binmethod A \<noteq> ''median''"
    and "\<And>g x y yerr lo hi n. lsqclip L g x y yerr lo hi n = Inl e"
  shows "\<exists>e'. bin_phases L A s3 = Inl e'"
proof (cases s3)
  case Nil
  then show ?thesis by (simp add: bin_phases_def)
next
  case (Cons r0 rest)
  show ?thesis
  proof (cases "nbins A = 0")
    case True
    with Cons show ?thesis by (simp add: bin_phases_def)
  next
    case False
    have "\<exists>e'. bin_loop L A (1 / real_of_int (nbins A)) s3
        (map p_phase s3 @ [fadd (p_phase r0) (Finite 1)]) 0 0 [r0] [] = Inl e'"
      by (rule bin_loop_raises [OF assms]) simp_all
    with Cons False show ?thesis by (simp add: bin_phases_def)
  qed
qed

subsection \<open>The claims\<close>

text \<open>
  Claim C1 says that a phase outside the current bin makes the loop flush and advance until
  the phase fits, and that the sample is then appended. The loop does not do that: it tests
  each phase once, and a phase outside the current bin flushes, advances the bin index by
  one and is not appended. With two bins and phases 0.1 and 0.6 the only buffer flushed is
  that of bin 0, holding the first sample twice (once from the initial buffer, once from the
  loop), and the sample at 0.6 reaches no buffer; with four bins and phases 0.1, 0.8, 0.85
  and 0.9 the last three samples each advance the index by one and all three are lost.
\<close>

theorem bin_loop_drops_boundary_sample:
  "bin_buffers 2 [demo_prow 0.1 10, demo_prow 0.6 20]
     = Inr [(0, [demo_prow 0.1 10, demo_prow 0.1 10])]
   \<and> map_sum id (map p_sap) (bin_phases demo_lib demo_args [demo_prow 0.1 10, demo_prow 0.6 20])
     = Inr [Finite 10]
   \<and> bin_buffers 4 [demo_prow 0.1 10, demo_prow 0.8 20, demo_prow 0.85 30, demo_prow 0.9 40]
     = Inr [(0, [demo_prow 0.1 10, demo_prow 0.1 10])]"
  by (simp add: demo_eval)

text \<open>
  Claim C2 says that the sizes of the emitted bins add up to the number of filtered samples
  and that a bin without samples is not emitted. The loop does neither: with two bins and
  phases 0.1 and 0.2 the one bin emitted has three contributions (its mean is
  (10 + 10 + 20) / 3), and with the single phase 0.6 the bin emitted is the one centred at
  0.25, the interval [0, 0.5), in which no phase lies.
\<close>

theorem bin_counts_not_conserved:
  "map_sum id (map (\<lambda>(n, w). length w)) (bin_buffers 2 [demo_prow 0.1 10, demo_prow 0.2 20])
     = Inr [3]
   \<and> map_sum id (map p_sap) (bin_phases demo_lib demo_args [demo_prow 0.1 10, demo_prow 0.2 20])
     = Inr [Finite (40 / 3)]
   \<and> map_sum id (map p_phase) (bin_phases demo_lib demo_args [demo_prow 0.6 20])
     = Inr [Finite 0.25]"
  by (simp add: demo_eval)

text \<open>
  Claim C3 says that a period at or below zero makes the fold fail. It does not: with period
  -2 the run completes and writes the PHASE column.
\<close>

theorem nonpositive_period_accepted:
  "map_sum id o_PHASE (kepfold_core demo_lib demo_env (demo_args\<lparr>period := - 2, bindata := False\<rparr>))
     = Inr [Finite 0.7, Finite 0.95]"
  by (simp add: core_eval)

text \<open>
  Claim C3, amended. The period is never checked: for every period, also zero and below, a
  run with binning off and a plot type that names a channel completes, and its PHASE column
  holds the phase of every row by the one formula.
\<close>

theorem no_period_check:
  assumes "select_cols (plottype A) \<noteq> None" and "\<not> bindata A"
  shows "\<exists>out. kepfold_core L E A = Inr out
           \<and> o_PHASE out = map (\<lambda>r. calc_phase (bjdref E) (adjust_bjd0 (bjdref E) (bjd0 A))
                                      (period A) (barytime r)) (table E)"
proof -
  from assms(1) obtain d e where "select_cols (plottype A) = Some (d, e)" by auto
  then have "filter_loop (select_cols (plottype A)) (rejqual A) (table E) []
      = Inr (filter (retained d e (rejqual A)) (table E))"
    by (simp add: filter_loop_Some)
  with assms(2) show ?thesis by (simp add: kepfold_core_def Let_def)
qed

theorem no_period_check_witness:
  "select_cols (plottype (demo_args\<lparr>period := 0, bindata := False\<rparr>)) \<noteq> None
   \<and> \<not> bindata (demo_args\<lparr>period := 0, bindata := False\<rparr>)
   \<and> map_sum id o_PHASE (kepfold_core demo_lib demo_env (demo_args\<lparr>period := 0, bindata := False\<rparr>))
       = Inr [NaN, NaN]"
proof -
  have h1: "select_cols (plottype (demo_args\<lparr>period := 0, bindata := False\<rparr>)) \<noteq> None"
    by (simp add: demo_args_def select_cols_sap)
  have h2: "\<not> bindata (demo_args\<lparr>period := 0, bindata := False\<rparr>)" by simp
  from no_period_check [OF h1 h2, of demo_lib demo_env] obtain out where
    "kepfold_core demo_lib demo_env (demo_args\<lparr>period := 0, bindata := False\<rparr>) = Inr out"
    "o_PHASE out = map (\<lambda>r. calc_phase (bjdref demo_env)
        (adjust_bjd0 (bjdref demo_env) (bjd0 (demo_args\<lparr>period := 0, bindata := False\<rparr>)))
        (period (demo_args\<lparr>period := 0, bindata := False\<rparr>)) (barytime r)) (table demo_env)"
    by blast
  then have "map_sum id o_PHASE
      (kepfold_core demo_lib demo_env (demo_args\<lparr>period := 0, bindata := False\<rparr>)) = Inr [NaN, NaN]"
    by (simp add: demo_env_def demo_args_def demo_row_def calc_phase_def fsub_def adjust_bjd0_def)
  with h1 h2 show ?thesis by blast
qed

text \<open>
  Claim C4 says that the phase of a finite time stamp lies in [0, 1) for a period above zero.
  In the arithmetic of the code it can be exactly 1: for the time 1000 - 2^-31 with time
  reference 2454833, epoch 2455833 and period 1 the float64 phase is 1 - 2^-31, which the
  cast to float32 rounds to 1; for the time -2^-70 with epoch 0 the float64 subtraction
  itself gives 1.
\<close>

theorem phase_reaches_one:
  "calc_phase_ieee 2454833 (Finite 2455833) 1 (Finite (1000 - 1 / 2 ^ 31)) = Finite 1
   \<and> calc_phase_rnd rnd64 Finite 0 (Finite 0) 1 (Finite (- (1 / 2 ^ 70))) = Finite 1
   \<and> PHASE_ieee ieee_env ieee_args = [Finite 1, NaN, Finite (3 / 4)]"
  by (simp add: ieee_eval PHASE_ieee_def ieee_env_def ieee_args_def demo_args_def demo_row_def
      adjust_bjd0_ieee_def)

text \<open>
  Claim C4, amended. The phase as the code computes and stores it is \<open>nan\<close> or a number in
  the closed interval [0, 1], for every input; it is \<open>nan\<close> for a time that is not finite,
  and a number in [0, 1] for a finite time and a period other than zero when no float64
  operation before the floor overflows. This holds for every entry of the PHASE column. In
  exact arithmetic, which is the same computation without rounding, the phase of a finite time
  lies in [0, 1) for a period above zero, whatever the sign of the date, and every entry of
  the PHASE column is \<open>nan\<close> or a number in [0, 1).
\<close>

theorem phase_in_closed_unit_interval:
  "(calc_phase_ieee ref b0 per t = NaN \<or>
      (\<exists>x. calc_phase_ieee ref b0 per t = Finite x \<and> 0 \<le> x \<and> x \<le> 1))
   \<and> (\<not> isfinite t \<longrightarrow> calc_phase_ieee ref b0 per t = NaN)
   \<and> (rnd64 (tr + ref) = Finite a \<longrightarrow> rnd64 (a - b0r) = Finite d \<longrightarrow> per \<noteq> 0 \<longrightarrow>
        rnd64 (d / per) = Finite q \<longrightarrow>
        (\<exists>x. calc_phase_ieee ref (Finite b0r) per (Finite tr) = Finite x \<and> 0 \<le> x \<and> x \<le> 1))
   \<and> list_all (\<lambda>v. v = NaN \<or> (\<exists>x. v = Finite x \<and> 0 \<le> x \<and> x \<le> 1)) (PHASE_ieee E A)
   \<and> (0 < per \<longrightarrow> (\<exists>x. calc_phase ref b0r per (Finite tr) = Finite x \<and> 0 \<le> x \<and> x < 1))
   \<and> (kepfold_core L E A = Inr out \<longrightarrow>
        list_all (\<lambda>v. v = NaN \<or> (\<exists>x. v = Finite x \<and> 0 \<le> x \<and> x < 1)) (o_PHASE out))
   \<and> calc_phase_rnd Finite Finite ref (Finite b0r) per t = calc_phase ref b0r per t"
proof (intro conjI impI)
  show "calc_phase_ieee ref b0 per t = NaN \<or>
      (\<exists>x. calc_phase_ieee ref b0 per t = Finite x \<and> 0 \<le> x \<and> x \<le> 1)"
    by (rule calc_phase_ieee_range)
  show "calc_phase_ieee ref b0 per t = NaN" if "\<not> isfinite t"
    using that by (rule calc_phase_ieee_nonfinite)
  show "\<exists>x. calc_phase_ieee ref (Finite b0r) per (Finite tr) = Finite x \<and> 0 \<le> x \<and> x \<le> 1"
    if "rnd64 (tr + ref) = Finite a" "rnd64 (a - b0r) = Finite d" "per \<noteq> 0"
      "rnd64 (d / per) = Finite q"
    using that by (rule calc_phase_ieee_no_overflow)
  show "list_all (\<lambda>v. v = NaN \<or> (\<exists>x. v = Finite x \<and> 0 \<le> x \<and> x \<le> 1)) (PHASE_ieee E A)"
    by (simp add: PHASE_ieee_def list_all_iff calc_phase_ieee_range)
  show "\<exists>x. calc_phase ref b0r per (Finite tr) = Finite x \<and> 0 \<le> x \<and> x < 1" if "0 < per"
    using that by (intro calc_phase_range) simp
  show "list_all (\<lambda>v. v = NaN \<or> (\<exists>x. v = Finite x \<and> 0 \<le> x \<and> x < 1)) (o_PHASE out)"
    if "kepfold_core L E A = Inr out"
    unfolding kepfold_core_PHASE [OF that] by (simp add: list_all_iff calc_phase_exact_range)
  show "calc_phase_rnd Finite Finite ref (Finite b0r) per t = calc_phase ref b0r per t"
    by (rule calc_phase_rnd_exact)
qed

theorem phase_in_closed_unit_interval_witness:
  "calc_phase_ieee 0 (Finite 0) 2 (Finite (- 1)) = Finite (1 / 2)
   \<and> \<not> isfinite PosInf \<and> calc_phase_ieee 0 (Finite 0) 2 PosInf = NaN
   \<and> rnd64 (- 1 + 0) = Finite (- 1) \<and> rnd64 (- 1 - 0) = Finite (- 1) \<and> (2::real) \<noteq> 0
   \<and> rnd64 (- 1 / 2) = Finite (- 1 / 2)
   \<and> calc_phase_ieee 0 (Finite 0) (1 / 2 ^ 1000) (Finite (2 ^ 100)) = NaN
   \<and> PHASE_ieee ieee_env ieee_args = [Finite 1, NaN, Finite (3 / 4)]
   \<and> map_sum id o_PHASE (kepfold_core demo_lib ieee_env (ieee_args\<lparr>bindata := False\<rparr>))
       = Inr [Finite (1 - 1 / 2 ^ 31), NaN, Finite (3 / 4)]
   \<and> (0::real) < 2 \<and> calc_phase 0 0 2 (Finite (- 1)) = Finite (1 / 2)"
proof -
  have r: "rnd64 (- 1 + 0) = Finite (- 1)" "rnd64 (- 1 - 0) = Finite (- 1)"
    "rnd64 (- 1 / 2) = Finite (- 1 / 2)"
    by (simp_all add: ieee_eval)
  from phase_in_closed_unit_interval [of 0 "Finite 0" 2 PosInf "- 1" "- 1" 0 "- 1" "- 1 / 2"
      ieee_env ieee_args demo_lib] r
  have "(\<exists>x. calc_phase_ieee 0 (Finite 0) 2 (Finite (- 1)) = Finite x \<and> 0 \<le> x \<and> x \<le> 1)"
    "calc_phase_ieee 0 (Finite 0) 2 PosInf = NaN"
    "(\<exists>x. calc_phase 0 0 2 (Finite (- 1)) = Finite x \<and> 0 \<le> x \<and> x < 1)"
    by simp_all
  moreover have "calc_phase_ieee 0 (Finite 0) 2 (Finite (- 1)) = Finite (1 / 2)"
    "calc_phase_ieee 0 (Finite 0) (1 / 2 ^ 1000) (Finite (2 ^ 100)) = NaN"
    "PHASE_ieee ieee_env ieee_args = [Finite 1, NaN, Finite (3 / 4)]"
    "calc_phase 0 0 2 (Finite (- 1)) = Finite (1 / 2)"
    by (simp_all add: ieee_eval PHASE_ieee_def ieee_env_def ieee_args_def demo_args_def
        demo_row_def adjust_bjd0_ieee_def calc_phase_def)
  moreover have "map_sum id o_PHASE
      (kepfold_core demo_lib ieee_env (ieee_args\<lparr>bindata := False\<rparr>))
       = Inr [Finite (1 - 1 / 2 ^ 31), NaN, Finite (3 / 4)]"
    by (simp add: kepfold_core_def Let_def select_cols_sap flt_gt_def ieee_env_def
        ieee_args_def demo_args_def demo_row_def calc_phase_def adjust_bjd0_def fsub_def)
  ultimately show ?thesis using r by simp
qed

text \<open>
  Claim C5. For every filtered input (and a period other than zero, so that the phases are
  numbers) the sorted rows are in non-decreasing order of phase, they are the rows of
  \<open>ptuple\<close> rearranged, each row carrying its channel values with its phase, and rows of
  equal phase keep their order.
\<close>

theorem phase_sorter_stable:
  assumes "filter_loop (select_cols (plottype A)) (rejqual A) (table E) [] = Inr work"
    and "period A \<noteq> 0"
  shows "sorted_wrt (\<lambda>a b. flt_le (p_phase a) (p_phase b)) (sort_stage E A work)
       \<and> mset (sort_stage E A work) = mset (ptuples E A work)
       \<and> (\<forall>k. filter (\<lambda>r. p_phase r = k) (sort_stage E A work)
                = filter (\<lambda>r. p_phase r = k) (ptuples E A work))"
proof (intro conjI allI)
  from assms(1) have "\<forall>r\<in>set work. isfinite (barytime r)"
    by (rule filter_loop_finite_time)
  from ptuples_phase_finite [OF assms(2) this]
  have "\<forall>p\<in>set (ptuples E A work). isfinite (p_phase p)" by fastforce
  then show "sorted_wrt (\<lambda>a b. flt_le (p_phase a) (p_phase b)) (sort_stage E A work)"
    unfolding sort_stage_def by (rule sorted_py_sorted)
  show "mset (sort_stage E A work) = mset (ptuples E A work)"
    by (simp add: sort_stage_def mset_py_sorted)
  fix k
  show "filter (\<lambda>r. p_phase r = k) (sort_stage E A work)
          = filter (\<lambda>r. p_phase r = k) (ptuples E A work)"
    by (simp add: sort_stage_def py_sorted_stable)
qed

theorem phase_sorter_stable_witness:
  "filter_loop (select_cols (plottype demo_args)) (rejqual demo_args) (table demo_env3) []
       = Inr (table demo_env3)
   \<and> period demo_args \<noteq> 0
   \<and> map p_phase (sort_stage demo_env3 demo_args (table demo_env3))
       = [Finite 0.1, Finite 0.1, Finite 0.6]
   \<and> map p_sap (sort_stage demo_env3 demo_args (table demo_env3))
       = [Finite 5, Finite 15, Finite 10]
   \<and> sorted_wrt (\<lambda>a b. flt_le (p_phase a) (p_phase b))
        (sort_stage demo_env3 demo_args (table demo_env3))
   \<and> mset (sort_stage demo_env3 demo_args (table demo_env3))
        = mset (ptuples demo_env3 demo_args (table demo_env3))"
proof -
  have f: "filter_loop (select_cols (plottype demo_args)) (rejqual demo_args) (table demo_env3) []
       = Inr (table demo_env3)"
    by (simp add: demo_args_def demo_env3_def select_cols_sap demo_row_def flt_gt_def)
  have p: "period demo_args \<noteq> 0" by (simp add: demo_args_def)
  have "map p_phase (sort_stage demo_env3 demo_args (table demo_env3))
       = [Finite 0.1, Finite 0.1, Finite 0.6]"
    "map p_sap (sort_stage demo_env3 demo_args (table demo_env3))
       = [Finite 5, Finite 15, Finite 10]"
    by (simp_all add: sort_stage_def ptuples_def demo_env3_def demo_args_def demo_row_def
      py_sorted_def calc_phase_def adjust_bjd0_def fsub_def scale_def mk_ptuple_def)
  with phase_sorter_stable [OF f p] f p show ?thesis by simp
qed

text \<open>
  Claim C6. With \<open>datacol\<close> and \<open>errcol\<close> the columns selected by the plot type, the filter
  keeps exactly the rows at the indices where the time is finite, \<open>datacol\<close> is finite and not
  zero, \<open>errcol\<close> is finite and above zero and, when low quality is rejected, the quality
  flag is zero. All channels of a kept row are kept together, and the condition does not look
  at the columns that are not selected: overwriting them, with \<open>nan\<close> or anything else,
  changes nothing.
\<close>

theorem validity_filter_selected_channel:
  assumes "select_cols pt = Some (d, e)"
  shows "filter_loop (select_cols pt) rq rows [] =
           Inr (map ((!) rows) (filter (\<lambda>i. retained d e rq (rows ! i)) [0..<length rows]))
       \<and> (d, e) \<in> {(sap, saperr), (pdc, pdcerr), (cbv, saperr), (det, deterr)}
       \<and> retained sap saperr rq (r\<lparr>pdc := x1, pdcerr := x2, cbv := x3, det := x4, deterr := x5\<rparr>)
           = retained sap saperr rq r
       \<and> retained pdc pdcerr rq (r\<lparr>sap := x1, saperr := x2, cbv := x3, det := x4, deterr := x5\<rparr>)
           = retained pdc pdcerr rq r
       \<and> retained cbv saperr rq (r\<lparr>sap := x1, pdc := x2, pdcerr := x3, det := x4, deterr := x5\<rparr>)
           = retained cbv saperr rq r
       \<and> retained det deterr rq (r\<lparr>sap := x1, saperr := x2, pdc := x3, pdcerr := x4, cbv := x5\<rparr>)
           = retained det deterr rq r"
proof (intro conjI)
  show "filter_loop (select_cols pt) rq rows [] =
           Inr (map ((!) rows) (filter (\<lambda>i. retained d e rq (rows ! i)) [0..<length rows]))"
    unfolding assms filter_loop_Some by (simp add: filter_by_index [symmetric])
  from assms show "(d, e) \<in> {(sap, saperr), (pdc, pdcerr), (cbv, saperr), (det, deterr)}"
    by (simp add: select_cols_def Let_def split: if_splits)
qed (simp_all add: retained_def)

theorem validity_filter_selected_channel_witness:
  "select_cols ''sap'' = Some (sap, saperr)
   \<and> filter_loop (select_cols ''sap'') True
       [demo_row 0.6 20, (demo_row 0.1 10)\<lparr>pdc := NaN\<rparr>, (demo_row 0.2 5)\<lparr>sap := NaN\<rparr>,
        (demo_row 0.3 7)\<lparr>quality := 4\<rparr>] []
     = Inr [demo_row 0.6 20, (demo_row 0.1 10)\<lparr>pdc := NaN\<rparr>]"
  using validity_filter_selected_channel [OF select_cols_sap, of True
      "[demo_row 0.6 20, (demo_row 0.1 10)\<lparr>pdc := NaN\<rparr>, (demo_row 0.2 5)\<lparr>sap := NaN\<rparr>,
        (demo_row 0.3 7)\<lparr>quality := 4\<rparr>]"]
  by (simp add: select_cols_sap retained_def demo_row_def flt_gt_def upt_rec)

text \<open>
  Claim C7. The wrap-around series consists of the points with phase above 0.5, shifted by
  -1, in their order, then all the points, then the points with phase at most 0.5, shifted by
  +1, in their order; the values are copied unchanged. The series of (0.1, a) and (0.6, b)
  becomes (-0.4, b), (0.1, a), (0.6, b), (1.1, a).
\<close>

theorem wrap_expand_spec:
  "wrap_expand xs =
     map (\<lambda>(p, w). (fsub p (Finite 1), w)) (filter (\<lambda>(p, w). flt_gt p (Finite 0.5)) xs)
     @ xs
     @ map (\<lambda>(p, w). (fadd p (Finite 1), w)) (filter (\<lambda>(p, w). flt_le p (Finite 0.5)) xs)
   \<and> wrap_expand [(Finite 0.1, a), (Finite 0.6, b)] =
       [(Finite (- 0.4), b), (Finite 0.1, a), (Finite 0.6, b), (Finite 1.1, a)]"
  by (simp add: wrap_expand_def wrap_hi_eq wrap_lo_eq flt_gt_def flt_le_def fsub_def)

text \<open>
  Claim C8 says that the mean, median and sigclip methods report, for every bin, the same
  uncertainty, \<open>mean_err\<close> of the whole uncertainty buffer. The mean and the median method
  do (whatever run returns bins reports \<open>mean_err\<close> of the buffers, which do not depend on
  the method), but a sigclip run reports nothing: the module never imports \<open>kepfunc\<close>, so
  the fit call of the first flush raises NameError, and for every input the run ends in an
  error before a bin is emitted.
\<close>

theorem sigclip_raises_name_error:
  "(\<exists>e. bin_phases (L\<lparr>lsqclip := (\<lambda>g x y yerr lo hi n. Inl NameError)\<rparr>)
          (A\<lparr>binmethod := ''sigclip''\<rparr>) s3 = Inl e)
   \<and> bin_phases demo_lib (demo_args\<lparr>binmethod := ''sigclip''\<rparr>) demo_sorted = Inl NameError
   \<and> map_sum id (map p_saperr) (bin_phases demo_lib (demo_args\<lparr>binmethod := ''mean''\<rparr>) demo_sorted)
     = Inr [Finite (13 / 4), Finite (17 / 20)]
   \<and> map_sum id (map p_saperr) (bin_phases demo_lib (demo_args\<lparr>binmethod := ''median''\<rparr>) demo_sorted)
     = Inr [Finite (13 / 4), Finite (17 / 20)]
   \<and> (\<exists>bs. bin_buffers 2 demo_sorted = Inr bs
         \<and> [Finite (13 / 4), Finite (17 / 20)]
              = map (\<lambda>(n, w). mean_err demo_lib (map p_saperr w)) bs)"
proof -
  have "\<exists>e. bin_phases (L\<lparr>lsqclip := (\<lambda>g x y yerr lo hi n. Inl NameError)\<rparr>)
          (A\<lparr>binmethod := ''sigclip''\<rparr>) s3 = Inl e"
    by (rule sigclip_never_succeeds [where e = NameError]) simp_all
  moreover have "bin_phases demo_lib (demo_args\<lparr>binmethod := ''sigclip''\<rparr>) demo_sorted
      = Inl NameError"
    by (simp add: demo_eval)
  moreover obtain b4 where ev: "bin_phases demo_lib (demo_args\<lparr>binmethod := ''mean''\<rparr>) demo_sorted = Inr b4"
    and b4: "map p_saperr b4 = [Finite (13 / 4), Finite (17 / 20)]"
    by (simp add: demo_eval)
  moreover from bin_uncertainty_is_mean_err [OF ev] b4
  have "\<exists>bs. bin_buffers 2 demo_sorted = Inr bs
         \<and> [Finite (13 / 4), Finite (17 / 20)]
              = map (\<lambda>(n, w). mean_err demo_lib (map p_saperr w)) bs"
    by (auto simp: demo_args_def)
  moreover have "map_sum id (map p_saperr)
      (bin_phases demo_lib (demo_args\<lparr>binmethod := ''median''\<rparr>) demo_sorted)
     = Inr [Finite (13 / 4), Finite (17 / 20)]"
    by (simp add: demo_eval)
  ultimately show ?thesis by simp
qed

text \<open>
  Claim C9. Slot 6 of every tuple, the CBV uncertainty that is carried along, is the SAP
  uncertainty of the same retained sample (divided by \<open>cadenom\<close> as the SAP uncertainty
  array is). So the sorted \<open>cbverr3\<close> column equals the sorted \<open>saperr3\<close> column, and
  the binned CBV uncertainty equals the binned SAP uncertainty.
\<close>

theorem cbverr_is_saperr:
  "map p_cbverr (ptuples E A work) = map (\<lambda>r. fdiv (saperr r) (Finite (cadenom E))) work
   \<and> map p_cbverr (sort_stage E A work) = map p_saperr (sort_stage E A work)
   \<and> (\<forall>b4. bin_phases L A (sort_stage E A work) = Inr b4
          \<longrightarrow> map p_cbverr b4 = map p_saperr b4)"
proof (intro conjI allI impI)
  show "map p_cbverr (ptuples E A work) = map (\<lambda>r. fdiv (saperr r) (Finite (cadenom E))) work"
    by (simp add: ptuples_def mk_ptuple_def scale_def comp_def)
  have all: "\<forall>r\<in>set (sort_stage E A work). p_cbverr r = p_saperr r"
    by (simp add: sort_stage_def set_py_sorted ptuples_cbverr)
  then show "map p_cbverr (sort_stage E A work) = map p_saperr (sort_stage E A work)"
    by (auto intro: map_cong)
  fix b4 assume "bin_phases L A (sort_stage E A work) = Inr b4"
  from bin_phases_cbverr [OF this all] show "map p_cbverr b4 = map p_saperr b4" .
qed

theorem cbverr_is_saperr_witness:
  "map p_cbverr (sort_stage demo_env3 demo_args (table demo_env3))
     = [Finite (1 / 2), Finite (3 / 2), Finite 1]
   \<and> map (\<lambda>r. fdiv (saperr r) (Finite (cadenom demo_env3))) (table demo_env3)
     = [Finite 1, Finite (1 / 2), Finite (3 / 2)]
   \<and> map p_cbverr (ptuples demo_env3 demo_args (table demo_env3))
     = [Finite 1, Finite (1 / 2), Finite (3 / 2)]
   \<and> map_sum id (map p_cbverr)
       (bin_phases demo_lib demo_args (sort_stage demo_env3 demo_args (table demo_env3)))
     = Inr [Finite (5 / 6)]
   \<and> map_sum id (map p_saperr)
       (bin_phases demo_lib demo_args (sort_stage demo_env3 demo_args (table demo_env3)))
     = Inr [Finite (5 / 6)]"
proof -
  have s: "sort_stage demo_env3 demo_args (table demo_env3)
     = [mk_ptuple (Finite 0.1) (scale 2 (demo_row 0.1 10)),
        mk_ptuple (Finite 0.1) (scale 2 (demo_row 1.1 30)),
        mk_ptuple (Finite 0.6) (scale 2 (demo_row 0.6 20))]"
    by (simp add: sort_stage_def ptuples_def demo_env3_def demo_args_def demo_row_def
      py_sorted_def calc_phase_def adjust_bjd0_def fsub_def scale_def mk_ptuple_def)
  obtain b4 where ev: "bin_phases demo_lib demo_args
        (sort_stage demo_env3 demo_args (table demo_env3)) = Inr b4"
    and b4: "map p_saperr b4 = [Finite (5 / 6)]"
    unfolding s by (simp add: demo_eval scale_def)
  from cbverr_is_saperr [of demo_env3 demo_args "table demo_env3" demo_lib] ev
  have "map p_cbverr (ptuples demo_env3 demo_args (table demo_env3))
          = map (\<lambda>r. fdiv (saperr r) (Finite (cadenom demo_env3))) (table demo_env3)"
    "map p_cbverr (sort_stage demo_env3 demo_args (table demo_env3))
          = map p_saperr (sort_stage demo_env3 demo_args (table demo_env3))"
    "map p_cbverr b4 = map p_saperr b4"
    by blast+
  moreover have "map (\<lambda>r. fdiv (saperr r) (Finite (cadenom demo_env3))) (table demo_env3)
     = [Finite 1, Finite (1 / 2), Finite (3 / 2)]"
    by (simp add: demo_env3_def demo_row_def)
  moreover have "map p_saperr (sort_stage demo_env3 demo_args (table demo_env3))
     = [Finite (1 / 2), Finite (3 / 2), Finite 1]"
    unfolding s by (simp add: mk_ptuple_def scale_def demo_row_def)
  ultimately show ?thesis using ev b4 by simp
qed

text \<open>
  Claim C10. The flux and uncertainty arrays are divided by \<open>cadenom\<close> after the filter,
  and the columns of the FOLDED table are divided by it once more. Compared with the run in
  which \<open>cadenom\<close> is 1 (a file with a version marker), a run with the mean method (or the
  median method and a positive factor) has the same bins, every binned flux column is the
  one of that run divided by the square of \<open>cadenom\<close>, and so is every binned uncertainty
  column when \<open>mean_err\<close> commutes with the division; the sorted, unbinned arrays are
  those of that run divided by \<open>cadenom\<close> once.
\<close>

theorem double_cadence_normalization:
  assumes c: "cadenom E \<noteq> 0"
    and m: "binmethod A = ''mean'' \<or> (binmethod A = ''median'' \<and> 0 < cadenom E)"
    and run: "kepfold_core L E A = Inr out"
    and tab: "o_FOLDED out = Some F"
  shows "\<exists>out1 F1. kepfold_core L (E\<lparr>cadenom := 1\<rparr>) A = Inr out1 \<and> o_FOLDED out1 = Some F1
     \<and> f_PHASE F = f_PHASE F1
     \<and> f_SAP_FLUX F = map (\<lambda>v. fdiv v (Finite (cadenom E * cadenom E))) (f_SAP_FLUX F1)
     \<and> f_PDC_FLUX F = map (\<lambda>v. fdiv v (Finite (cadenom E * cadenom E))) (f_PDC_FLUX F1)
     \<and> f_CBV_FLUX F = map (\<lambda>v. fdiv v (Finite (cadenom E * cadenom E))) (f_CBV_FLUX F1)
     \<and> f_DET_FLUX F = map (\<lambda>v. fdiv v (Finite (cadenom E * cadenom E))) (f_DET_FLUX F1)
     \<and> ((\<forall>xs. mean_err L (map (\<lambda>x. fdiv x (Finite (cadenom E))) xs)
                = fdiv (mean_err L xs) (Finite (cadenom E)))
          \<longrightarrow> f_SAP_FLUX_ERR F
                = map (\<lambda>v. fdiv v (Finite (cadenom E * cadenom E))) (f_SAP_FLUX_ERR F1)
            \<and> f_PDC_FLUX_ERR F
                = map (\<lambda>v. fdiv v (Finite (cadenom E * cadenom E))) (f_PDC_FLUX_ERR F1)
            \<and> f_DET_FLUX_ERR F
                = map (\<lambda>v. fdiv v (Finite (cadenom E * cadenom E))) (f_DET_FLUX_ERR F1))
     \<and> o_sorted out = map (pscale (cadenom E)) (o_sorted out1)"
proof -
  let ?c = "cadenom E"
  let ?E1 = "E\<lparr>cadenom := 1\<rparr>"
  let ?dt = "1 / real_of_int (nbins A)"
  let ?rel = "\<lambda>b (n, w). flush L A n ?dt w = Inr b"
  from run tab obtain work b4 where
    fl: "filter_loop (select_cols (plottype A)) (rejqual A) (table E) [] = Inr work"
    and bd: "bindata A"
    and bp: "bin_phases L A (sort_stage E A work) = Inr b4"
    and F: "F = folded_table ?c b4"
    and srt: "o_sorted out = sort_stage E A work"
    by (auto simp: kepfold_core_def Let_def split: sum.splits if_splits)
  let ?s1 = "sort_stage ?E1 A work"
  have s: "sort_stage E A work = map (pscale ?c) ?s1" by (rule sort_stage_scale)
  from bin_phases_buffers [OF bp] obtain bs where
    bs: "bin_buffers (nbins A) (map (pscale ?c) ?s1) = Inr bs" and rel: "list_all2 ?rel b4 bs"
    unfolding s by blast
  from bs bin_buffers_map [of "pscale ?c" "nbins A" ?s1, OF pscale_phase]
  obtain bs1 where bs1: "bin_buffers (nbins A) ?s1 = Inr bs1"
    and bs_eq: "bs = map (\<lambda>(n, w). (n, map (pscale ?c) w)) bs1"
    by (cases "bin_buffers (nbins A) ?s1") simp_all
  from m have m': "binmethod A = ''mean'' \<or> binmethod A = ''median''" by blast
  from bin_phases_total [OF m' bs1] obtain b41 where
    bp1: "bin_phases L A ?s1 = Inr b41" and rel1: "list_all2 ?rel b41 bs1"
    by blast
  define out1 where "out1 = \<lparr>o_PHASE = o_PHASE out, o_FOLDED = Some (folded_table 1 b41),
      o_sorted = ?s1, o_series1 = wrap_expand (series_of (plottype A) ?s1),
      o_series2 = wrap_expand (series_of (plottype A) b41)\<rparr>"
  from run fl bd bp have ph: "o_PHASE out = map (\<lambda>r. calc_phase (bjdref E)
      (adjust_bjd0 (bjdref E) (bjd0 A)) (period A) (barytime r)) (table E)"
    by (auto simp: kepfold_core_def Let_def)
  have run1: "kepfold_core L ?E1 A = Inr out1"
    using fl bd bp1 ph by (simp add: kepfold_core_def Let_def out1_def)
  note rel' = rel [unfolded bs_eq]
  have vals: "map p_phase b4 = map (\<lambda>v. v) (map p_phase b41)"
    "map p_sap b4 = map (\<lambda>v. fdiv v (Finite ?c)) (map p_sap b41)"
    "map p_pdc b4 = map (\<lambda>v. fdiv v (Finite ?c)) (map p_pdc b41)"
    "map p_cbv b4 = map (\<lambda>v. fdiv v (Finite ?c)) (map p_cbv b41)"
    "map p_det b4 = map (\<lambda>v. fdiv v (Finite ?c)) (map p_det b41)"
    by (rule list_all2_flush_pair [OF rel' rel1], simp add: flush_scale_vals [OF c m])+
  have errs: "map p_saperr b4 = map (\<lambda>v. fdiv v (Finite ?c)) (map p_saperr b41)
      \<and> map p_pdcerr b4 = map (\<lambda>v. fdiv v (Finite ?c)) (map p_pdcerr b41)
      \<and> map p_deterr b4 = map (\<lambda>v. fdiv v (Finite ?c)) (map p_deterr b41)"
    if hom: "\<forall>xs. mean_err L (map (\<lambda>x. fdiv x (Finite ?c)) xs) = fdiv (mean_err L xs) (Finite ?c)"
  proof -
    from hom have h: "\<And>xs. mean_err L (map (\<lambda>x. fdiv x (Finite ?c)) xs)
        = fdiv (mean_err L xs) (Finite ?c)" by blast
    show ?thesis
      by (intro conjI; rule list_all2_flush_pair [OF rel' rel1]; simp add: flush_scale_errs [OF h])
  qed
  have "f_PHASE F = f_PHASE (folded_table 1 b41)"
    using vals(1) by (simp add: F folded_cols)
  moreover have "f_SAP_FLUX F = map (\<lambda>v. fdiv v (Finite (?c * ?c))) (f_SAP_FLUX (folded_table 1 b41))"
    unfolding F folded_cols by (rule col_squared [OF c vals(2)])
  moreover have "f_PDC_FLUX F = map (\<lambda>v. fdiv v (Finite (?c * ?c))) (f_PDC_FLUX (folded_table 1 b41))"
    unfolding F folded_cols by (rule col_squared [OF c vals(3)])
  moreover have "f_CBV_FLUX F = map (\<lambda>v. fdiv v (Finite (?c * ?c))) (f_CBV_FLUX (folded_table 1 b41))"
    unfolding F folded_cols by (rule col_squared [OF c vals(4)])
  moreover have "f_DET_FLUX F = map (\<lambda>v. fdiv v (Finite (?c * ?c))) (f_DET_FLUX (folded_table 1 b41))"
    unfolding F folded_cols by (rule col_squared [OF c vals(5)])
  moreover have "(\<forall>xs. mean_err L (map (\<lambda>x. fdiv x (Finite ?c)) xs) = fdiv (mean_err L xs) (Finite ?c))
      \<longrightarrow> f_SAP_FLUX_ERR F
            = map (\<lambda>v. fdiv v (Finite (?c * ?c))) (f_SAP_FLUX_ERR (folded_table 1 b41))
        \<and> f_PDC_FLUX_ERR F
            = map (\<lambda>v. fdiv v (Finite (?c * ?c))) (f_PDC_FLUX_ERR (folded_table 1 b41))
        \<and> f_DET_FLUX_ERR F
            = map (\<lambda>v. fdiv v (Finite (?c * ?c))) (f_DET_FLUX_ERR (folded_table 1 b41))"
  proof
    assume "\<forall>xs. mean_err L (map (\<lambda>x. fdiv x (Finite ?c)) xs) = fdiv (mean_err L xs) (Finite ?c)"
    from errs [OF this]
    have e1: "map p_saperr b4 = map (\<lambda>v. fdiv v (Finite ?c)) (map p_saperr b41)"
      and e2: "map p_pdcerr b4 = map (\<lambda>v. fdiv v (Finite ?c)) (map p_pdcerr b41)"
      and e3: "map p_deterr b4 = map (\<lambda>v. fdiv v (Finite ?c)) (map p_deterr b41)"
      by blast+
    show "f_SAP_FLUX_ERR F
            = map (\<lambda>v. fdiv v (Finite (?c * ?c))) (f_SAP_FLUX_ERR (folded_table 1 b41))
        \<and> f_PDC_FLUX_ERR F
            = map (\<lambda>v. fdiv v (Finite (?c * ?c))) (f_PDC_FLUX_ERR (folded_table 1 b41))
        \<and> f_DET_FLUX_ERR F
            = map (\<lambda>v. fdiv v (Finite (?c * ?c))) (f_DET_FLUX_ERR (folded_table 1 b41))"
      unfolding F folded_cols
      by (intro conjI col_squared [OF c e1] col_squared [OF c e2] col_squared [OF c e3])
  qed
  moreover have "o_sorted out = map (pscale ?c) (o_sorted out1)"
    by (simp add: srt s out1_def)
  moreover have "o_FOLDED out1 = Some (folded_table 1 b41)" by (simp add: out1_def)
  ultimately show ?thesis using run1 by blast
qed

theorem double_cadence_normalization_witness:
  "cadenom demo_env3 \<noteq> 0 \<and> binmethod demo_args = ''mean''
   \<and> map_sum id (map_option f_SAP_FLUX \<circ> o_FOLDED) (kepfold_core demo_lib demo_env3 demo_args)
       = Inr (Some [Finite (25 / 6)])
   \<and> map_sum id (map_option f_SAP_FLUX \<circ> o_FOLDED)
        (kepfold_core demo_lib (demo_env3\<lparr>cadenom := 1\<rparr>) demo_args)
       = Inr (Some [Finite (50 / 3)])
   \<and> map_sum id (map p_sap \<circ> o_sorted) (kepfold_core demo_lib demo_env3 demo_args)
       = Inr [Finite 5, Finite 15, Finite 10]
   \<and> map_sum id (map p_sap \<circ> o_sorted)
        (kepfold_core demo_lib (demo_env3\<lparr>cadenom := 1\<rparr>) demo_args)
       = Inr [Finite 10, Finite 30, Finite 20]"
proof -
  have c: "cadenom demo_env3 \<noteq> 0" by (simp add: demo_env3_def)
  have m: "binmethod demo_args = ''mean'' \<or> (binmethod demo_args = ''median'' \<and> 0 < cadenom demo_env3)"
    by (simp add: demo_args_def)
  obtain out F where ev: "kepfold_core demo_lib demo_env3 demo_args = Inr out"
    and tab: "o_FOLDED out = Some F" and sap: "f_SAP_FLUX F = [Finite (25 / 6)]"
    and srt: "map p_sap (o_sorted out) = [Finite 5, Finite 15, Finite 10]"
    by (simp add: core_eval demo_env3_def demo_eval folded_table_def)
  have ev1: "map_sum id (map p_sap \<circ> o_sorted)
        (kepfold_core demo_lib (demo_env3\<lparr>cadenom := 1\<rparr>) demo_args)
       = Inr [Finite 10, Finite 30, Finite 20]"
    by (simp add: core_eval demo_env3_def demo_eval folded_table_def)
  from double_cadence_normalization [OF c m ev tab] obtain out1 F1 where
    run1: "kepfold_core demo_lib (demo_env3\<lparr>cadenom := 1\<rparr>) demo_args = Inr out1"
    and tab1: "o_FOLDED out1 = Some F1"
    and sq: "f_SAP_FLUX F
        = map (\<lambda>v. fdiv v (Finite (cadenom demo_env3 * cadenom demo_env3))) (f_SAP_FLUX F1)"
    by blast
  from sq sap obtain v where F1: "f_SAP_FLUX F1 = [v]" and v: "fdiv v (Finite 4) = Finite (25 / 6)"
    by (auto simp: demo_env3_def)
  from v have "v = Finite (50 / 3)" by (cases v) (simp_all split: if_splits)
  with F1 run1 tab1 ev tab sap srt ev1 c show ?thesis by (simp add: demo_args_def)
qed

end
